theory Spec2Isabelle
  imports Complex_Main "HOL-Library.AList"
begin

section \<open>Data model\<close>

text \<open>
  The fields of \<^verbatim>\<open>AggRow\<close> (api/types.ts) that the aggregation, classification and
  filter code reads. Every one of them is declared \<^verbatim>\<open>?: T | null\<close>; \<^verbatim>\<open>undefined\<close> and
  \<^verbatim>\<open>null\<close> are both \<open>None\<close>, since no test in the code tells them apart
  (\<^verbatim>\<open>!= null\<close>, \<^verbatim>\<open>?.\<close>, truthiness, \<^verbatim>\<open>!==\<close> against a string). A number field is a \<open>real\<close>, with no NaN
  and no infinity; the sums of the aggregators are exact, the quotient and product of
  the basis-point formatter are rounded as binary64 arithmetic rounds them. A string
  is a \<open>char list\<close>; characters are bytes, so text beyond ASCII is there in UTF-8.
\<close>

record AggRow =
  strategy :: "string option"
  investment_id :: "string option"
  investment_description :: "string option"
  hedge_label :: "string option"
  hedge_family :: "string option"
  mv_ssc_usd :: "real option"
  pnl_1d_usd :: "real option"
  pnl_mtd_usd :: "real option"
  underlying_type :: "string option"
  underlying_symbol :: "string option"
  expiry :: "string option"
  spread_id :: "string option"
  spread_name :: "string option"
  is_spread_leg :: "bool option"

definition empty_row :: AggRow where
  "empty_row = \<lparr>strategy = None, investment_id = None, investment_description = None,
     hedge_label = None, hedge_family = None, mv_ssc_usd = None, pnl_1d_usd = None,
     pnl_mtd_usd = None, underlying_type = None, underlying_symbol = None, expiry = None,
     spread_id = None, spread_name = None, is_spread_leg = None\<rparr>"

text \<open>\<^verbatim>\<open>x || 0\<close> on an optional number: an absent value and the value 0 both give 0.\<close>

definition or_zero :: "real option \<Rightarrow> real" where
  "or_zero v = (case v of None \<Rightarrow> 0 | Some x \<Rightarrow> x)"

section \<open>Strings\<close>

text \<open>
  \<^verbatim>\<open>toUpperCase\<close> and \<^verbatim>\<open>toLowerCase\<close> are the JavaScript engine's Unicode case mappings
  (they may even change the length of a string). They are not part of the repository
  and are parameters of every function that calls them. \<^verbatim>\<open>s.includes(pat)\<close> is the test
  for a contiguous occurrence.
\<close>

fun startsWith :: "string \<Rightarrow> string \<Rightarrow> bool" where
  "startsWith s [] = True"
| "startsWith [] (c # cs) = False"
| "startsWith (x # xs) (c # cs) = (x = c \<and> startsWith xs cs)"

fun includes_str :: "string \<Rightarrow> string \<Rightarrow> bool" where
  "includes_str [] pat = (pat = [])"
| "includes_str (x # xs) pat = (startsWith (x # xs) pat \<or> includes_str xs pat)"

text \<open>
  Sample case mappings for evaluating the code: the ASCII letters, and with them the
  long s (U+017F, bytes C5 BF, upper case S) and the accented capital E (U+00C9,
  bytes C3 89, lower case C3 A9).
\<close>

definition ascii_upper_char :: "char \<Rightarrow> char" where
  "ascii_upper_char c =
     (case map_of (zip ''abcdefghijklmnopqrstuvwxyz'' ''ABCDEFGHIJKLMNOPQRSTUVWXYZ'') c of
        None \<Rightarrow> c | Some u \<Rightarrow> u)"


fun sample_upper :: "string \<Rightarrow> string" where
  "sample_upper [] = []"
| "sample_upper [a] = [ascii_upper_char a]"
| "sample_upper (a # b # cs) =
     (if a = CHR 0xC5 \<and> b = CHR 0xBF then CHR ''S'' # sample_upper cs
      else ascii_upper_char a # sample_upper (b # cs))"


section \<open>Classifier (lib/chartUtils)\<close>

subsection \<open>getAssetType\<close>

definition getAssetType :: "(string \<Rightarrow> string) \<Rightarrow> AggRow \<Rightarrow> string" where
  "getAssetType toUpperCase position =
     (let symbol = (case underlying_symbol position of None \<Rightarrow> [] | Some s \<Rightarrow> toUpperCase s);
          type = (case underlying_type position of None \<Rightarrow> [] | Some t \<Rightarrow> toUpperCase t)
      in if includes_str symbol ''CDX IG'' \<or> includes_str symbol ''CDX.IG'' then ''IG''
         else if includes_str symbol ''CDX HY'' \<or> includes_str symbol ''CDX.HY''
                 \<or> includes_str symbol ''HYG'' then ''HY''
         else if includes_str symbol ''SPY'' \<or> includes_str symbol ''SPX''
                 \<or> includes_str symbol ''S&P'' then ''SPY''
         else if includes_str type ''CREDIT'' then
                (if includes_str symbol ''IG'' then ''IG''
                 else if includes_str symbol ''HY'' then ''HY''
                 else ''Credit (Other)'')
         else if includes_str type ''EQUITY'' then ''Equity (Other)''
         else ''Other'')"



subsection \<open>getExpiryBucket\<close>

text \<open>
  The date library is not part of the repository. A valid \<^verbatim>\<open>dayjs\<close> object is an instant:
  its time value in milliseconds since the epoch and its offset from UTC in minutes.
  The parser \<^verbatim>\<open>dayjs(expiryDate)\<close> is a parameter of the classifier, \<open>None\<close> standing for
  an object whose \<^verbatim>\<open>isValid()\<close> is false, and so is the clock \<^verbatim>\<open>dayjs()\<close>.
  \<^verbatim>\<open>a.diff(b, 'day')\<close> is the library's: the difference of the time values, corrected by
  the difference of the offsets, divided by the milliseconds of a day and truncated
  toward zero.
\<close>

record Instant =
  valueOf :: int
  utcOffset :: int

definition absFloor :: "int \<Rightarrow> int \<Rightarrow> int" where
  "absFloor n d = (if n < 0 then - ((- n) div d) else n div d)"

definition diff_day :: "Instant \<Rightarrow> Instant \<Rightarrow> int" where
  "diff_day this that =
     (let zoneDelta = (utcOffset that - utcOffset this) * 60000;
          diff = valueOf this - valueOf that
      in absFloor (diff - zoneDelta) 86400000)"

datatype ExpiryBucket = B_0_3M | B_3_6M | B_6_12M | B_12M_plus

definition getExpiryBucket ::
  "Instant \<Rightarrow> (string \<Rightarrow> Instant option) \<Rightarrow> string option \<Rightarrow> ExpiryBucket option" where
  "getExpiryBucket today dayjs expiryDate =
     (case expiryDate of
        None \<Rightarrow> None
      | Some s \<Rightarrow>
          if s = [] then None
          else (case dayjs s of
                  None \<Rightarrow> None
                | Some expiry_d \<Rightarrow>
                    (let daysUntilExpiry = diff_day expiry_d today
                     in if daysUntilExpiry < 0 then None
                        else if daysUntilExpiry \<le> 90 then Some B_0_3M
                        else if daysUntilExpiry \<le> 180 then Some B_3_6M
                        else if daysUntilExpiry \<le> 365 then Some B_6_12M
                        else Some B_12M_plus)))"

text \<open>A fixed clock and parser for evaluating the classifier: 2 November 2026, UTC.\<close>

definition today0 :: Instant where
  "today0 = \<lparr>valueOf = 1793577600000, utcOffset = 0\<rparr>"

definition dayjs0 :: "string \<Rightarrow> Instant option" where
  "dayjs0 s =
     (if s = ''2027-01-31'' then Some (today0\<lparr>valueOf := valueOf today0 + 90 * 86400000\<rparr>)
      else if s = ''2027-02-05'' then Some (today0\<lparr>valueOf := valueOf today0 + 95 * 86400000\<rparr>)
      else if s = ''2026-10-28'' then Some (today0\<lparr>valueOf := valueOf today0 - 5 * 86400000\<rparr>)
      else if s = ''2028-06-01'' then Some \<lparr>valueOf = 1843430400000, utcOffset = 0\<rparr>
      else None)"

section \<open>Bucket aggregator (lib/chartUtils)\<close>

text \<open>
  A JavaScript \<^verbatim>\<open>Map\<close> is an association list in insertion order: \<^verbatim>\<open>get\<close> is \<open>map_of\<close>,
  \<^verbatim>\<open>set\<close> is \<open>AList.update\<close> (an existing key keeps its place, a new one goes last). The
  value \<^verbatim>\<open>{ mv, count }\<close> of the bucket map is a pair. \<^verbatim>\<open>bucketMap.get(bucket)!\<close> is
  unchecked at run time: were the key missing, reading \<^verbatim>\<open>.mv\<close> of \<^verbatim>\<open>undefined\<close> would
  throw, which is the \<open>TypeError\<close> branch here.
\<close>

datatype js_error = TypeError | RangeError

record ExpiryBucketData =
  bucket :: ExpiryBucket
  marketValue :: real
  count :: nat
  displayOrder :: nat

type_synonym bucketMap = "(ExpiryBucket \<times> (real \<times> nat)) list"

definition buckets :: "ExpiryBucket list" where
  "buckets = [B_0_3M, B_3_6M, B_6_12M, B_12M_plus]"

definition init_buckets :: bucketMap where
  "init_buckets = fold (\<lambda>b bucketMap. AList.update b (0, 0) bucketMap) buckets []"

definition add_position ::
  "Instant \<Rightarrow> (string \<Rightarrow> Instant option) \<Rightarrow> AggRow \<Rightarrow> bucketMap \<Rightarrow> js_error + bucketMap" where
  "add_position today dayjs position bucketMap =
     (case getExpiryBucket today dayjs (expiry position) of
        None \<Rightarrow> Inr bucketMap
      | Some b \<Rightarrow>
          (case mv_ssc_usd position of
             None \<Rightarrow> Inr bucketMap
           | Some v \<Rightarrow>
               (case map_of bucketMap b of
                  None \<Rightarrow> Inl TypeError
                | Some (mv, cnt) \<Rightarrow> Inr (AList.update b (mv + v, cnt + 1) bucketMap))))"

fun aggregate_positions ::
  "Instant \<Rightarrow> (string \<Rightarrow> Instant option) \<Rightarrow> AggRow list \<Rightarrow> bucketMap \<Rightarrow> js_error + bucketMap" where
  "aggregate_positions today dayjs [] bucketMap = Inr bucketMap"
| "aggregate_positions today dayjs (position # rest) bucketMap =
     (case add_position today dayjs position bucketMap of
        Inl e \<Rightarrow> Inl e
      | Inr bucketMap' \<Rightarrow> aggregate_positions today dayjs rest bucketMap')"

fun displayOrderMap :: "ExpiryBucket \<Rightarrow> nat" where
  "displayOrderMap B_0_3M = 1"
| "displayOrderMap B_3_6M = 2"
| "displayOrderMap B_6_12M = 3"
| "displayOrderMap B_12M_plus = 4"

fun chart_rows :: "bucketMap \<Rightarrow> ExpiryBucket list \<Rightarrow> js_error + ExpiryBucketData list" where
  "chart_rows bucketMap [] = Inr []"
| "chart_rows bucketMap (b # rest) =
     (case map_of bucketMap b of
        None \<Rightarrow> Inl TypeError
      | Some (mv, cnt) \<Rightarrow>
          (case chart_rows bucketMap rest of
             Inl e \<Rightarrow> Inl e
           | Inr ds \<Rightarrow>
               Inr (\<lparr>bucket = b, marketValue = mv, count = cnt,
                      displayOrder = displayOrderMap b\<rparr> # ds)))"

definition aggregateByExpiryBucket ::
  "Instant \<Rightarrow> (string \<Rightarrow> Instant option) \<Rightarrow> AggRow list \<Rightarrow> js_error + ExpiryBucketData list" where
  "aggregateByExpiryBucket today dayjs positions =
     (case aggregate_positions today dayjs positions init_buckets of
        Inl e \<Rightarrow> Inl e
      | Inr bucketMap \<Rightarrow> chart_rows bucketMap buckets)"

text \<open>
  What the specification counts: a row is eligible for bucket \<open>b\<close> when its market
  value is defined and its expiry is present, parses and lies a whole-day difference
  \<open>d \<ge> 0\<close> ahead that falls in the range of \<open>b\<close>.
\<close>

definition days_until :: "Instant \<Rightarrow> (string \<Rightarrow> Instant option) \<Rightarrow> string option \<Rightarrow> int option" where
  "days_until today dayjs expiryDate =
     (case expiryDate of
        None \<Rightarrow> None
      | Some s \<Rightarrow> if s = [] then None else map_option (\<lambda>e. diff_day e today) (dayjs s))"

definition countable_row :: "Instant \<Rightarrow> (string \<Rightarrow> Instant option) \<Rightarrow> AggRow \<Rightarrow> bool" where
  "countable_row today dayjs p =
     (mv_ssc_usd p \<noteq> None \<and> (\<exists>d. days_until today dayjs (expiry p) = Some d \<and> 0 \<le> d))"

definition bucket_rows ::
  "Instant \<Rightarrow> (string \<Rightarrow> Instant option) \<Rightarrow> ExpiryBucket \<Rightarrow> AggRow list \<Rightarrow> AggRow list" where
  "bucket_rows today dayjs b positions =
     filter (\<lambda>p. mv_ssc_usd p \<noteq> None \<and> getExpiryBucket today dayjs (expiry p) = Some b) positions"

definition bucket_total ::
  "Instant \<Rightarrow> (string \<Rightarrow> Instant option) \<Rightarrow> ExpiryBucket \<Rightarrow> AggRow list \<Rightarrow> real" where
  "bucket_total today dayjs b positions =
     (\<Sum>p\<leftarrow>bucket_rows today dayjs b positions. or_zero (mv_ssc_usd p))"

definition bucket_entry ::
  "Instant \<Rightarrow> (string \<Rightarrow> Instant option) \<Rightarrow> AggRow list \<Rightarrow> ExpiryBucket \<Rightarrow> ExpiryBucketData" where
  "bucket_entry today dayjs positions b =
     \<lparr>bucket = b, marketValue = bucket_total today dayjs b positions,
      count = length (bucket_rows today dayjs b positions), displayOrder = displayOrderMap b\<rparr>"

text \<open>Sample rows for the ladder.\<close>

definition row_expiring :: "string \<Rightarrow> real \<Rightarrow> AggRow" where
  "row_expiring e mv = empty_row\<lparr>expiry := Some e, mv_ssc_usd := Some mv\<rparr>"

section \<open>Category aggregator (lib/chartUtils)\<close>

text \<open>
  The result array is sorted by \<^verbatim>\<open>Array.prototype.sort\<close>, which is stable, with
  the comparator \<^verbatim>\<open>b.marketValue - a.marketValue\<close>: a stable sort on the negated market
  value.
\<close>

record AssetTypeData =
  assetType :: string
  marketValue :: real
  percentage :: real
  color :: string

definition colorMap :: "(string \<times> string) list" where
  "colorMap = [(''IG'', ''#14b8a6''), (''HY'', ''#0d9488''), (''SPY'', ''#2dd4bf''),
     (''Credit (Other)'', ''#5eead4''), (''Equity (Other)'', ''#99f6e4''),
     (''Other'', ''#6b7280'')]"

definition add_asset ::
  "(string \<Rightarrow> string) \<Rightarrow> AggRow \<Rightarrow> (string \<times> real) list \<times> real
     \<Rightarrow> (string \<times> real) list \<times> real" where
  "add_asset toUpperCase position acc =
     (case acc of (assetMap, totalMV) \<Rightarrow>
        (case mv_ssc_usd position of
           None \<Rightarrow> (assetMap, totalMV)
         | Some v \<Rightarrow>
             (let ty = getAssetType toUpperCase position;
                  currentMV = or_zero (map_of assetMap ty)
              in (AList.update ty (currentMV + \<bar>v\<bar>) assetMap, totalMV + \<bar>v\<bar>))))"

definition asset_entry :: "real \<Rightarrow> string \<times> real \<Rightarrow> AssetTypeData" where
  "asset_entry totalMV kv =
     (case kv of (ty, mv) \<Rightarrow>
        \<lparr>assetType = ty, marketValue = mv,
         percentage = (if totalMV > 0 then (mv / totalMV) * 100 else 0),
         color = (case map_of colorMap ty of None \<Rightarrow> ''#6b7280'' | Some c \<Rightarrow> c)\<rparr>)"

definition aggregateByAssetType :: "(string \<Rightarrow> string) \<Rightarrow> AggRow list \<Rightarrow> AssetTypeData list" where
  "aggregateByAssetType toUpperCase positions =
     (case fold (add_asset toUpperCase) positions ([], 0) of
        (assetMap, totalMV) \<Rightarrow>
          sort_key (\<lambda>a. - AssetTypeData.marketValue a) (map (asset_entry totalMV) assetMap))"

text \<open>The gross total and the gross exposure of one category, as the specification words them.\<close>

definition gross_total :: "AggRow list \<Rightarrow> real" where
  "gross_total positions = (\<Sum>p\<leftarrow>positions. \<bar>or_zero (mv_ssc_usd p)\<bar>)"

definition category_sum :: "(string \<Rightarrow> string) \<Rightarrow> string \<Rightarrow> AggRow list \<Rightarrow> real" where
  "category_sum toUpperCase ty positions =
     (\<Sum>p\<leftarrow>filter (\<lambda>p. mv_ssc_usd p \<noteq> None \<and> getAssetType toUpperCase p = ty) positions.
        \<bar>or_zero (mv_ssc_usd p)\<bar>)"

text \<open>
  What a run of the accumulation loop over \<open>ps\<close> adds to the map and the running total.
\<close>

definition asset_inv ::
  "(string \<Rightarrow> string) \<Rightarrow> AggRow list \<Rightarrow> (string \<times> real) list \<times> real
     \<Rightarrow> (string \<times> real) list \<times> real \<Rightarrow> bool" where
  "asset_inv toUpperCase ps start fin =
     (snd fin = snd start + gross_total ps
      \<and> sum_list (map snd (fst fin)) = sum_list (map snd (fst start)) + gross_total ps
      \<and> (\<forall>ty. or_zero (map_of (fst fin) ty)
            = or_zero (map_of (fst start) ty) + category_sum toUpperCase ty ps)
      \<and> fst ` set (fst fin)
          = fst ` set (fst start)
              \<union> getAssetType toUpperCase ` {p \<in> set ps. mv_ssc_usd p \<noteq> None}
      \<and> (distinct (map fst (fst start)) \<longrightarrow> distinct (map fst (fst fin))))"

text \<open>Sample rows for the category breakdown.\<close>

definition asset_row :: "string \<Rightarrow> real option \<Rightarrow> AggRow" where
  "asset_row symbol mv = empty_row\<lparr>underlying_symbol := Some symbol, mv_ssc_usd := mv\<rparr>"

definition sample_book :: "AggRow list" where
  "sample_book = [asset_row ''CDX.IG 5Y'' (Some 100), asset_row ''spx put'' (Some (- 300)),
     asset_row ''HYG'' None]"

section \<open>Spread consolidator (components/AggTable)\<close>

text \<open>
  \<^verbatim>\<open>aggregates\<close> is a plain object created by \<^verbatim>\<open>{}\<close>, so reading \<^verbatim>\<open>aggregates[key]\<close>
  goes through its own properties first and then through those it inherits from
  \<^verbatim>\<open>Object.prototype\<close> (the twelve standard names below), all of which are objects or
  functions and hence truthy. The model keeps the own properties as an association
  list and makes the three outcomes of the read explicit. For an inherited member the guard \<^verbatim>\<open>!aggregates[key]\<close> is false,
  no own property is created, and the three \<^verbatim>\<open>+=\<close> land on the inherited member (whose
  fields become NaN), leaving the own properties as they were. The code only reads the
  result by key, so the order of the own properties plays no role.
\<close>

record SpreadAggregate =
  mv_total :: real
  pnl_1d_total :: real
  pnl_mtd_total :: real
  spread_name :: string

datatype property = Undefined | Own SpreadAggregate | Inherited

definition Object_prototype_keys :: "string list" where
  "Object_prototype_keys =
     [''constructor'', ''__defineGetter__'', ''__defineSetter__'', ''hasOwnProperty'',
      ''__lookupGetter__'', ''__lookupSetter__'', ''isPrototypeOf'', ''propertyIsEnumerable'',
      ''toString'', ''valueOf'', ''__proto__'', ''toLocaleString'']"

definition get_property :: "(string \<times> SpreadAggregate) list \<Rightarrow> string \<Rightarrow> property" where
  "get_property aggregates key =
     (case map_of aggregates key of
        Some a \<Rightarrow> Own a
      | None \<Rightarrow> if key \<in> set Object_prototype_keys then Inherited else Undefined)"

definition str_or :: "string option \<Rightarrow> string \<Rightarrow> string" where
  "str_or v d = (case v of None \<Rightarrow> d | Some s \<Rightarrow> if s = [] then d else s)"

definition add_leg ::
  "AggRow \<Rightarrow> (string \<times> SpreadAggregate) list \<Rightarrow> (string \<times> SpreadAggregate) list" where
  "add_leg row aggregates =
     (case spread_id row of
        None \<Rightarrow> aggregates
      | Some sid \<Rightarrow>
          if sid \<noteq> [] \<and> is_spread_leg row = Some True then
            (let aggregates' =
                   (case get_property aggregates sid of
                      Undefined \<Rightarrow>
                        AList.update sid
                          \<lparr>mv_total = 0, pnl_1d_total = 0, pnl_mtd_total = 0,
                           spread_name = str_or (AggRow.spread_name row) ''Spread''\<rparr>
                          aggregates
                    | _ \<Rightarrow> aggregates)
             in case get_property aggregates' sid of
                  Own a \<Rightarrow>
                    AList.update sid
                      (a\<lparr>mv_total := mv_total a + or_zero (mv_ssc_usd row),
                         pnl_1d_total := pnl_1d_total a + or_zero (pnl_1d_usd row),
                         pnl_mtd_total := pnl_mtd_total a + or_zero (pnl_mtd_usd row)\<rparr>)
                      aggregates'
                | _ \<Rightarrow> aggregates')
          else aggregates)"

definition spreadAggregates :: "AggRow list \<Rightarrow> (string \<times> SpreadAggregate) list" where
  "spreadAggregates data = fold add_leg data []"

text \<open>
  The rows that take part in consolidation under the key \<open>sid\<close>, in input order, as the
  code's guard \<^verbatim>\<open>row.spread_id && row.is_spread_leg\<close> selects them.
\<close>

definition qualifies :: "AggRow \<Rightarrow> bool" where
  "qualifies row =
     ((case spread_id row of None \<Rightarrow> False | Some sid \<Rightarrow> sid \<noteq> [])
      \<and> is_spread_leg row = Some True)"

definition legs_of :: "string \<Rightarrow> AggRow list \<Rightarrow> AggRow list" where
  "legs_of sid data = filter (\<lambda>row. qualifies row \<and> spread_id row = Some sid) data"

text \<open>
  Adding the three metrics of a list of rows to an aggregate, and the aggregate a row
  creates when its key is new.
\<close>

definition bump :: "SpreadAggregate \<Rightarrow> AggRow list \<Rightarrow> SpreadAggregate" where
  "bump a rows =
     a\<lparr>mv_total := mv_total a + (\<Sum>row\<leftarrow>rows. or_zero (mv_ssc_usd row)),
       pnl_1d_total := pnl_1d_total a + (\<Sum>row\<leftarrow>rows. or_zero (pnl_1d_usd row)),
       pnl_mtd_total := pnl_mtd_total a + (\<Sum>row\<leftarrow>rows. or_zero (pnl_mtd_usd row))\<rparr>"

definition fresh :: "AggRow \<Rightarrow> SpreadAggregate" where
  "fresh row = \<lparr>mv_total = 0, pnl_1d_total = 0, pnl_mtd_total = 0,
                 spread_name = str_or (AggRow.spread_name row) ''Spread''\<rparr>"

text \<open>Sample rows.\<close>

definition leg_S1 :: "real \<Rightarrow> AggRow" where
  "leg_S1 mv = empty_row\<lparr>spread_id := Some ''S1'', is_spread_leg := Some True, mv_ssc_usd := Some mv\<rparr>"

definition leg_unnamed :: AggRow where
  "leg_unnamed = empty_row\<lparr>spread_id := Some [], is_spread_leg := Some True, mv_ssc_usd := Some 100\<rparr>"

definition leg_toString :: AggRow where
  "leg_toString = empty_row\<lparr>spread_id := Some ''toString'', AggRow.spread_name := Some ''Payer Spread'',
     is_spread_leg := Some True, mv_ssc_usd := Some 100\<rparr>"

section \<open>Filter engine (App)\<close>

definition admits ::
  "(string \<Rightarrow> string) \<Rightarrow> string \<Rightarrow> string \<Rightarrow> string \<Rightarrow> AggRow \<Rightarrow> bool" where
  "admits toLowerCase selectedFamily selectedStrategy searchQuery row =
     (if selectedFamily \<noteq> [] \<and> hedge_family row \<noteq> Some selectedFamily then False
      else if selectedStrategy \<noteq> [] \<and> strategy row \<noteq> Some selectedStrategy then False
      else if searchQuery \<noteq> [] then
        (let query = toLowerCase searchQuery;
             matchesDescription =
               (case investment_description row of
                  None \<Rightarrow> False | Some d \<Rightarrow> includes_str (toLowerCase d) query);
             matchesLabel =
               (case hedge_label row of
                  None \<Rightarrow> False | Some l \<Rightarrow> includes_str (toLowerCase l) query);
             matchesId =
               (case investment_id row of
                  None \<Rightarrow> False | Some i \<Rightarrow> includes_str (toLowerCase i) query)
         in if \<not> matchesDescription \<and> \<not> matchesLabel \<and> \<not> matchesId then False else True)
      else True)"

definition filteredData ::
  "(string \<Rightarrow> string) \<Rightarrow> string \<Rightarrow> string \<Rightarrow> string \<Rightarrow> AggRow list \<Rightarrow> AggRow list" where
  "filteredData toLowerCase selectedFamily selectedStrategy searchQuery aggData =
     filter (admits toLowerCase selectedFamily selectedStrategy searchQuery) aggData"



section \<open>Basis-point normalizer (lib/format)\<close>

text \<open>
  The quotient and the product of \<^verbatim>\<open>formatBasisPoints\<close> are binary64 operations: the
  exact result rounded to the nearest number with a 53-bit significand, ties to the
  even significand, with the exponent held at -1022 for subnormal results and an
  infinity from \<open>2 ^ 1024\<close> on. The value and the total are finite numbers and the
  total is not zero where the quotient is taken, so no NaN arises.
\<close>

datatype number = Finite real | PosInfinity | NegInfinity

definition round_half_even :: "real \<Rightarrow> int" where
  "round_half_even r =
     (let f = \<lfloor>r\<rfloor>; d = r - of_int f
      in if d < 1 / 2 then f else if 1 / 2 < d then f + 1 else if even f then f else f + 1)"

definition binary64 :: "real \<Rightarrow> number" where
  "binary64 x =
     (if x = 0 then Finite 0
      else
        (let e = max \<lfloor>log 2 \<bar>x\<bar>\<rfloor> (- 1022);
             ulp = 2 powi (e - 52);
             y = of_int (round_half_even (x / ulp)) * ulp
         in if 2 ^ 1024 \<le> \<bar>y\<bar> then (if 0 < x then PosInfinity else NegInfinity)
            else Finite y))"

text \<open>
  \<^verbatim>\<open>Number.prototype.toFixed\<close>: a number of fraction digits outside 0..100 throws; an
  infinity prints its name; a number from \<open>10 ^ 21\<close> on prints as \<^verbatim>\<open>ToString\<close> does
  (an exponent form, a parameter here); otherwise the sign, then the integer \<open>n\<close>
  nearest to \<open>\<bar>x\<bar> * 10 ^ f\<close> for the exact value \<open>x\<close> of the number (the larger one at a
  tie) in decimal digits, padded with zeros on the left to \<open>f + 1\<close> digits, with the
  point before the last \<open>f\<close> digits. The parameter \<^verbatim>\<open>decimals\<close> of \<^verbatim>\<open>formatBasisPoints\<close>
  defaults to 1, and every caller leaves it at that.
\<close>

definition digit_char :: "nat \<Rightarrow> char" where
  "digit_char d = ''0123456789'' ! d"

fun nat_digits :: "nat \<Rightarrow> string" where
  "nat_digits n = (if n < 10 then [digit_char n] else nat_digits (n div 10) @ [digit_char (n mod 10)])"

declare nat_digits.simps [simp del]

definition fixed_digits :: "real \<Rightarrow> nat \<Rightarrow> string" where
  "fixed_digits x f =
     (let s = (if x < 0 then ''-'' else []);
          n = nat \<lfloor>\<bar>x\<bar> * 10 ^ f + 1 / 2\<rfloor>;
          m = nat_digits n;
          z = (if length m \<le> f then replicate (f + 1 - length m) (CHR ''0'') @ m else m);
          k = length z
      in if f \<noteq> 0 then s @ take (k - f) z @ ''.'' @ drop (k - f) z else s @ m)"

definition toFixed :: "(real \<Rightarrow> string) \<Rightarrow> number \<Rightarrow> int \<Rightarrow> js_error + string" where
  "toFixed Number_toString x fractionDigits =
     (if fractionDigits < 0 \<or> 100 < fractionDigits then Inl RangeError
      else
        (case x of
           PosInfinity \<Rightarrow> Inr ''Infinity''
         | NegInfinity \<Rightarrow> Inr ''-Infinity''
         | Finite r \<Rightarrow>
             if 10 ^ 21 \<le> \<bar>r\<bar>
             then Inr ((if r < 0 then ''-'' else []) @ Number_toString \<bar>r\<bar>)
             else Inr (fixed_digits r (nat fractionDigits))))"

definition formatBasisPoints ::
  "(real \<Rightarrow> string) \<Rightarrow> real option \<Rightarrow> real \<Rightarrow> int \<Rightarrow> js_error + string" where
  "formatBasisPoints Number_toString value portfolioTotal decimals =
     (case value of
        None \<Rightarrow> Inr ''-''
      | Some v \<Rightarrow>
          if portfolioTotal = 0 then Inr ''-''
          else (let bps = (case binary64 (v / portfolioTotal) of
                             Finite q \<Rightarrow> binary64 (q * 10000)
                           | PosInfinity \<Rightarrow> PosInfinity
                           | NegInfinity \<Rightarrow> NegInfinity)
                in case toFixed Number_toString bps decimals of
                     Inl e \<Rightarrow> Inl e
                   | Inr digits \<Rightarrow> Inr (digits @ '' bps'')))"

text \<open>
  A stand-in for \<^verbatim>\<open>ToString\<close> in evaluations on numbers below \<open>10 ^ 21\<close>, which never
  reach it.
\<close>

definition exponent_form :: "real \<Rightarrow> string" where
  "exponent_form x = ''e+''"

section \<open>Properties\<close>

subsection \<open>Substring search, classification and filtering\<close>






lemma getAssetType_fields:
  "getAssetType toUpperCase (p\<lparr>underlying_symbol := Some s, underlying_type := Some t\<rparr>)
     = getAssetType toUpperCase
         (empty_row\<lparr>underlying_symbol := Some s, underlying_type := Some t\<rparr>)"
  by (simp add: getAssetType_def)














subsection \<open>Expiry classification\<close>

lemma diff_day_shift:
  "0 \<le> n \<Longrightarrow> diff_day (today\<lparr>valueOf := valueOf today + n * 86400000\<rparr>) today = n"
  by (simp add: diff_day_def absFloor_def)

lemma diff_day_shift_neg:
  "n < 0 \<Longrightarrow> diff_day (today\<lparr>valueOf := valueOf today + n * 86400000\<rparr>) today = n"
  by (simp add: diff_day_def absFloor_def)

text \<open>
  C2. \<open>getExpiryBucket\<close> returns none for an absent, empty or unparsable expiry and for
  a negative whole-day difference from the reference date, and otherwise buckets by
  inclusive upper bounds 90, 180 and 365; an expiry exactly 90 days ahead is \<open>0-3M\<close>,
  one 95 days ahead is \<open>3-6M\<close>, one 5 days back is excluded.
\<close>

theorem getExpiryBucket_classification:
  "getExpiryBucket today dayjs None = None
   \<and> getExpiryBucket today dayjs (Some []) = None
   \<and> (dayjs s = None \<longrightarrow> getExpiryBucket today dayjs (Some s) = None)
   \<and> (s \<noteq> [] \<and> dayjs s = Some e \<longrightarrow>
        getExpiryBucket today dayjs (Some s) =
          (if diff_day e today < 0 then None
           else if diff_day e today \<le> 90 then Some B_0_3M
           else if diff_day e today \<le> 180 then Some B_3_6M
           else if diff_day e today \<le> 365 then Some B_6_12M
           else Some B_12M_plus))
   \<and> (s \<noteq> [] \<and> dayjs s = Some (today\<lparr>valueOf := valueOf today + 90 * 86400000\<rparr>) \<longrightarrow>
        getExpiryBucket today dayjs (Some s) = Some B_0_3M)
   \<and> (s \<noteq> [] \<and> dayjs s = Some (today\<lparr>valueOf := valueOf today + 95 * 86400000\<rparr>) \<longrightarrow>
        getExpiryBucket today dayjs (Some s) = Some B_3_6M)
   \<and> (s \<noteq> [] \<and> dayjs s = Some (today\<lparr>valueOf := valueOf today - 5 * 86400000\<rparr>) \<longrightarrow>
        getExpiryBucket today dayjs (Some s) = None)"
proof (intro conjI impI)
  show "getExpiryBucket today dayjs None = None"
    by (simp add: getExpiryBucket_def)
  show "getExpiryBucket today dayjs (Some []) = None"
    by (simp add: getExpiryBucket_def)
  show "getExpiryBucket today dayjs (Some s) = None" if "dayjs s = None"
    using that by (simp add: getExpiryBucket_def)
  show "getExpiryBucket today dayjs (Some s) =
          (if diff_day e today < 0 then None
           else if diff_day e today \<le> 90 then Some B_0_3M
           else if diff_day e today \<le> 180 then Some B_3_6M
           else if diff_day e today \<le> 365 then Some B_6_12M
           else Some B_12M_plus)"
    if "s \<noteq> [] \<and> dayjs s = Some e"
    using that by (simp add: getExpiryBucket_def Let_def)
  show "getExpiryBucket today dayjs (Some s) = Some B_0_3M"
    if "s \<noteq> [] \<and> dayjs s = Some (today\<lparr>valueOf := valueOf today + 90 * 86400000\<rparr>)"
    using that diff_day_shift [of 90 today] by (simp add: getExpiryBucket_def Let_def)
  show "getExpiryBucket today dayjs (Some s) = Some B_3_6M"
    if "s \<noteq> [] \<and> dayjs s = Some (today\<lparr>valueOf := valueOf today + 95 * 86400000\<rparr>)"
    using that diff_day_shift [of 95 today] by (simp add: getExpiryBucket_def Let_def)
  show "getExpiryBucket today dayjs (Some s) = None"
    if "s \<noteq> [] \<and> dayjs s = Some (today\<lparr>valueOf := valueOf today - 5 * 86400000\<rparr>)"
    using that diff_day_shift_neg [of "-5" today] by (simp add: getExpiryBucket_def Let_def)
qed

theorem getExpiryBucket_classification_witness:
  "getExpiryBucket today0 dayjs0 (Some ''n/a'') = None
   \<and> getExpiryBucket today0 dayjs0 (Some ''2028-06-01'') = Some B_12M_plus
   \<and> getExpiryBucket today0 dayjs0 (Some ''2027-01-31'') = Some B_0_3M
   \<and> getExpiryBucket today0 dayjs0 (Some ''2027-02-05'') = Some B_3_6M
   \<and> getExpiryBucket today0 dayjs0 (Some ''2026-10-28'') = None"
proof -
  have a: "dayjs0 ''n/a'' = None" by (simp add: dayjs0_def)
  have b: "''2028-06-01'' \<noteq> [] \<and> dayjs0 ''2028-06-01'' = Some \<lparr>valueOf = 1843430400000, utcOffset = 0\<rparr>"
    by (simp add: dayjs0_def)
  have c: "''2027-01-31'' \<noteq> []
           \<and> dayjs0 ''2027-01-31'' = Some (today0\<lparr>valueOf := valueOf today0 + 90 * 86400000\<rparr>)"
    by (simp add: dayjs0_def)
  have d: "''2027-02-05'' \<noteq> []
           \<and> dayjs0 ''2027-02-05'' = Some (today0\<lparr>valueOf := valueOf today0 + 95 * 86400000\<rparr>)"
    by (simp add: dayjs0_def)
  have e: "''2026-10-28'' \<noteq> []
           \<and> dayjs0 ''2026-10-28'' = Some (today0\<lparr>valueOf := valueOf today0 - 5 * 86400000\<rparr>)"
    by (simp add: dayjs0_def)
  have far: "diff_day \<lparr>valueOf = 1843430400000, utcOffset = 0\<rparr> today0 = 577"
    by (simp add: diff_day_def absFloor_def today0_def)
  from a getExpiryBucket_classification [of today0 dayjs0 "''n/a''"]
  have 1: "getExpiryBucket today0 dayjs0 (Some ''n/a'') = None" by blast
  from b getExpiryBucket_classification [of today0 dayjs0 "''2028-06-01''" "\<lparr>valueOf = 1843430400000, utcOffset = 0\<rparr>"]
  have 2: "getExpiryBucket today0 dayjs0 (Some ''2028-06-01'') = Some B_12M_plus"
    by (simp add: far)
  from c getExpiryBucket_classification [of today0 dayjs0 "''2027-01-31''"]
  have 3: "getExpiryBucket today0 dayjs0 (Some ''2027-01-31'') = Some B_0_3M" by blast
  from d getExpiryBucket_classification [of today0 dayjs0 "''2027-02-05''"]
  have 4: "getExpiryBucket today0 dayjs0 (Some ''2027-02-05'') = Some B_3_6M" by blast
  from e getExpiryBucket_classification [of today0 dayjs0 "''2026-10-28''"]
  have 5: "getExpiryBucket today0 dayjs0 (Some ''2026-10-28'') = None" by blast
  from 1 2 3 4 5 show ?thesis by blast
qed


subsection \<open>Expiry ladder\<close>

lemma set_buckets: "b \<in> set buckets"
  by (cases b) (simp_all add: buckets_def)

lemma getExpiryBucket_defined:
  "getExpiryBucket today dayjs x \<noteq> None \<longleftrightarrow> (\<exists>d. days_until today dayjs x = Some d \<and> 0 \<le> d)"
  by (auto simp: getExpiryBucket_def days_until_def Let_def split: option.splits)

lemma map_of_keys: "map fst m = buckets \<Longrightarrow> \<exists>mv c. map_of m b = Some (mv, c)"
proof -
  assume "map fst m = buckets"
  then have "b \<in> fst ` set m" using set_buckets [of b] by (metis set_map)
  then obtain v where "map_of m b = Some v" by (metis domIff dom_map_of_conv_image_fst not_Some_eq)
  then show ?thesis by (cases v) simp
qed

lemma update_keeps_keys: "map fst m = buckets \<Longrightarrow> map fst (AList.update b v m) = buckets"
  using set_buckets [of b] by (simp add: update_keys)

lemma bucket_rows_Cons:
  "bucket_rows today dayjs b (p # ps) =
     (if mv_ssc_usd p \<noteq> None \<and> getExpiryBucket today dayjs (expiry p) = Some b
      then p # bucket_rows today dayjs b ps else bucket_rows today dayjs b ps)"
  by (simp add: bucket_rows_def)

lemma aggregate_positions_inv:
  assumes "map fst m = buckets"
  shows "\<exists>m'. aggregate_positions today dayjs ps m = Inr m' \<and> map fst m' = buckets
           \<and> (\<forall>b mv c. map_of m b = Some (mv, c) \<longrightarrow>
                 map_of m' b = Some (mv + bucket_total today dayjs b ps,
                                     c + length (bucket_rows today dayjs b ps)))"
  using assms
proof (induction ps arbitrary: m)
  case Nil
  then show ?case by (simp add: bucket_total_def bucket_rows_def)
next
  case (Cons p ps)
  show ?case
  proof (cases "getExpiryBucket today dayjs (expiry p)")
    case None
    then have step: "add_position today dayjs p m = Inr m" by (simp add: add_position_def)
    from None have rows: "\<And>b. bucket_rows today dayjs b (p # ps) = bucket_rows today dayjs b ps"
      by (simp add: bucket_rows_Cons)
    from Cons.IH [OF Cons.prems] show ?thesis
      by (simp add: step rows bucket_total_def)
  next
    case (Some b0)
    show ?thesis
    proof (cases "mv_ssc_usd p")
      case None
      then have step: "add_position today dayjs p m = Inr m"
        by (simp add: add_position_def split: option.splits)
      from None have rows: "\<And>b. bucket_rows today dayjs b (p # ps) = bucket_rows today dayjs b ps"
        by (simp add: bucket_rows_Cons)
      from Cons.IH [OF Cons.prems] show ?thesis
        by (simp add: step rows bucket_total_def)
    next
      case (Some v)
      from map_of_keys [OF Cons.prems, of b0] obtain mv0 c0 where
        cur: "map_of m b0 = Some (mv0, c0)" by blast
      let ?m1 = "AList.update b0 (mv0 + v, c0 + 1) m"
      have step: "add_position today dayjs p m = Inr ?m1"
        using \<open>getExpiryBucket today dayjs (expiry p) = Some b0\<close> Some cur
        by (simp add: add_position_def)
      have keys1: "map fst ?m1 = buckets" using Cons.prems by (rule update_keeps_keys)
      from Cons.IH [OF keys1] obtain m' where
        run: "aggregate_positions today dayjs ps ?m1 = Inr m'" and
        keys': "map fst m' = buckets" and
        vals: "\<And>b mv c. map_of ?m1 b = Some (mv, c) \<Longrightarrow>
                 map_of m' b = Some (mv + bucket_total today dayjs b ps,
                                     c + length (bucket_rows today dayjs b ps))"
        by blast
      have "map_of m' b = Some (mv + bucket_total today dayjs b (p # ps),
                                c + length (bucket_rows today dayjs b (p # ps)))"
        if "map_of m b = Some (mv, c)" for b mv c
      proof (cases "b = b0")
        case True
        with that cur have "mv = mv0" "c = c0" by simp_all
        with True have "map_of ?m1 b = Some (mv + v, c + 1)" by (simp add: update_conv')
        from vals [OF this] True Some
          \<open>getExpiryBucket today dayjs (expiry p) = Some b0\<close>
        show ?thesis
          by (simp add: bucket_total_def bucket_rows_Cons or_zero_def)
      next
        case False
        with that have "map_of ?m1 b = Some (mv, c)" by (simp add: update_conv')
        from vals [OF this] False Some
          \<open>getExpiryBucket today dayjs (expiry p) = Some b0\<close>
        show ?thesis
          by (simp add: bucket_total_def bucket_rows_Cons)
      qed
      with run keys' show ?thesis by (simp add: step)
    qed
  qed
qed

lemma chart_rows_entries:
  assumes "\<And>b. map_of m b = Some (bucket_total today dayjs b ps, length (bucket_rows today dayjs b ps))"
  shows "chart_rows m bs = Inr (map (bucket_entry today dayjs ps) bs)"
  by (induction bs) (simp_all add: assms bucket_entry_def)

lemma init_buckets_eq:
  "init_buckets = [(B_0_3M, (0, 0)), (B_3_6M, (0, 0)), (B_6_12M, (0, 0)), (B_12M_plus, (0, 0))]"
  by (simp add: init_buckets_def buckets_def)

lemma aggregateByExpiryBucket_closed:
  "aggregateByExpiryBucket today dayjs ps = Inr (map (bucket_entry today dayjs ps) buckets)"
proof -
  have keys: "map fst init_buckets = buckets" by (simp add: init_buckets_eq buckets_def)
  have zero: "map_of init_buckets b = Some (0, 0)" for b
    by (cases b) (simp_all add: init_buckets_eq)
  from aggregate_positions_inv [OF keys, of today dayjs ps] obtain m' where
    run: "aggregate_positions today dayjs ps init_buckets = Inr m'" and
    vals: "\<And>b mv c. map_of init_buckets b = Some (mv, c) \<Longrightarrow>
             map_of m' b = Some (mv + bucket_total today dayjs b ps,
                                 c + length (bucket_rows today dayjs b ps))"
    by blast
  have "map_of m' b = Some (bucket_total today dayjs b ps, length (bucket_rows today dayjs b ps))" for b
    using vals [OF zero [of b]] by simp
  then have "chart_rows m' buckets = Inr (map (bucket_entry today dayjs ps) buckets)"
    by (rule chart_rows_entries)
  with run show ?thesis by (simp add: aggregateByExpiryBucket_def)
qed

lemma counts_partition:
  "(\<Sum>b\<leftarrow>buckets. length (bucket_rows today dayjs b ps))
     = length (filter (countable_row today dayjs) ps)"
proof (induction ps)
  case Nil
  then show ?case by (simp add: bucket_rows_def buckets_def)
next
  case (Cons p ps)
  show ?case
  proof (cases "mv_ssc_usd p \<noteq> None \<and> getExpiryBucket today dayjs (expiry p) \<noteq> None")
    case True
    then have c: "countable_row today dayjs p"
      using getExpiryBucket_defined [of today dayjs "expiry p"] by (simp add: countable_row_def)
    from True obtain b0 where b0: "getExpiryBucket today dayjs (expiry p) = Some b0" by blast
    with True have "(\<Sum>b\<leftarrow>buckets. length (bucket_rows today dayjs b (p # ps)))
        = Suc (\<Sum>b\<leftarrow>buckets. length (bucket_rows today dayjs b ps))"
      by (cases b0) (simp_all add: buckets_def bucket_rows_Cons)
    with Cons c show ?thesis by simp
  next
    case False
    then have c: "\<not> countable_row today dayjs p"
      using getExpiryBucket_defined [of today dayjs "expiry p"] by (auto simp: countable_row_def)
    from False have "\<And>b. bucket_rows today dayjs b (p # ps) = bucket_rows today dayjs b ps"
      by (auto simp: bucket_rows_Cons)
    with Cons c show ?thesis by simp
  qed
qed

lemma bucket_rows_skip:
  assumes "\<not> countable_row today dayjs r"
  shows "bucket_rows today dayjs b (xs @ r # ys) = bucket_rows today dayjs b (xs @ ys)"
proof -
  from assms have "\<not> (mv_ssc_usd r \<noteq> None \<and> getExpiryBucket today dayjs (expiry r) = Some b)"
    using getExpiryBucket_defined [of today dayjs "expiry r"] by (auto simp: countable_row_def)
  then show ?thesis by (simp add: bucket_rows_def)
qed


text \<open>
  C1. For every list of positions \<open>aggregateByExpiryBucket\<close> returns (and never throws)
  exactly four entries, in the order \<open>0-3M\<close>, \<open>3-6M\<close>, \<open>6-12M\<close>, \<open>12M+\<close> with display
  orders 1 to 4; each entry carries the signed sum and the number of the rows with a
  defined market value that classify into its bucket, so an empty bucket has 0 and 0;
  the four counts add up to the number of rows with a defined market value and an
  expiry that is present, parses and has a whole-day difference from the reference
  date that is not negative; a row lacking either adds to no sum and no count.
\<close>

theorem aggregateByExpiryBucket_ladder:
  "(\<exists>res. aggregateByExpiryBucket today dayjs positions = Inr res
      \<and> map bucket res = [B_0_3M, B_3_6M, B_6_12M, B_12M_plus]
      \<and> map displayOrder res = [1, 2, 3, 4]
      \<and> map ExpiryBucketData.marketValue res
          = map (\<lambda>b. \<Sum>p\<leftarrow>bucket_rows today dayjs b positions. or_zero (mv_ssc_usd p)) buckets
      \<and> map count res = map (\<lambda>b. length (bucket_rows today dayjs b positions)) buckets
      \<and> sum_list (map count res) = length (filter (countable_row today dayjs) positions))
   \<and> (\<exists>res. aggregateByExpiryBucket today dayjs [] = Inr res
      \<and> map ExpiryBucketData.marketValue res = [0, 0, 0, 0] \<and> map count res = [0, 0, 0, 0])
   \<and> (\<not> countable_row today dayjs r \<longrightarrow>
        aggregateByExpiryBucket today dayjs (xs @ r # ys)
          = aggregateByExpiryBucket today dayjs (xs @ ys))"
proof (intro conjI impI)
  let ?res = "map (bucket_entry today dayjs positions) buckets"
  have f1: "aggregateByExpiryBucket today dayjs positions = Inr ?res"
    by (rule aggregateByExpiryBucket_closed)
  have f2: "map bucket ?res = [B_0_3M, B_3_6M, B_6_12M, B_12M_plus]"
    by (simp add: buckets_def bucket_entry_def)
  have f3: "map displayOrder ?res = [1, 2, 3, 4]"
    by (simp add: buckets_def bucket_entry_def)
  have f4: "map ExpiryBucketData.marketValue ?res
          = map (\<lambda>b. \<Sum>p\<leftarrow>bucket_rows today dayjs b positions. or_zero (mv_ssc_usd p)) buckets"
    by (simp add: bucket_entry_def bucket_total_def)
  have f5: "map count ?res = map (\<lambda>b. length (bucket_rows today dayjs b positions)) buckets"
    by (simp add: bucket_entry_def)
  have f6: "sum_list (map count ?res) = length (filter (countable_row today dayjs) positions)"
    unfolding f5 by (rule counts_partition)
  show "\<exists>res. aggregateByExpiryBucket today dayjs positions = Inr res
      \<and> map bucket res = [B_0_3M, B_3_6M, B_6_12M, B_12M_plus]
      \<and> map displayOrder res = [1, 2, 3, 4]
      \<and> map ExpiryBucketData.marketValue res
          = map (\<lambda>b. \<Sum>p\<leftarrow>bucket_rows today dayjs b positions. or_zero (mv_ssc_usd p)) buckets
      \<and> map count res = map (\<lambda>b. length (bucket_rows today dayjs b positions)) buckets
      \<and> sum_list (map count res) = length (filter (countable_row today dayjs) positions)"
    by (rule exI [of _ ?res]) (intro conjI f1 f2 f3 f4 f5 f6)
next
  let ?res = "map (bucket_entry today dayjs []) buckets"
  have g1: "aggregateByExpiryBucket today dayjs [] = Inr ?res"
    by (rule aggregateByExpiryBucket_closed)
  have g2: "map ExpiryBucketData.marketValue ?res = [0, 0, 0, 0]"
    by (simp add: buckets_def bucket_entry_def bucket_total_def bucket_rows_def)
  have g3: "map count ?res = [0, 0, 0, 0]"
    by (simp add: buckets_def bucket_entry_def bucket_rows_def)
  show "\<exists>res. aggregateByExpiryBucket today dayjs [] = Inr res
      \<and> map ExpiryBucketData.marketValue res = [0, 0, 0, 0] \<and> map count res = [0, 0, 0, 0]"
    by (rule exI [of _ ?res]) (intro conjI g1 g2 g3)
next
  assume "\<not> countable_row today dayjs r"
  then have "bucket_entry today dayjs (xs @ r # ys) = bucket_entry today dayjs (xs @ ys)"
    by (simp add: bucket_entry_def bucket_total_def bucket_rows_skip fun_eq_iff)
  then show "aggregateByExpiryBucket today dayjs (xs @ r # ys)
          = aggregateByExpiryBucket today dayjs (xs @ ys)"
    by (simp add: aggregateByExpiryBucket_closed)
qed

theorem aggregateByExpiryBucket_ladder_witness:
  "\<not> countable_row today0 dayjs0 (row_expiring ''2026-10-28'' 7)
   \<and> aggregateByExpiryBucket today0 dayjs0
        ([row_expiring ''2027-01-31'' 100] @ row_expiring ''2026-10-28'' 7 # [row_expiring ''2027-02-05'' (- 40)])
      = aggregateByExpiryBucket today0 dayjs0
        ([row_expiring ''2027-01-31'' 100] @ [row_expiring ''2027-02-05'' (- 40)])"
proof -
  have h: "\<not> countable_row today0 dayjs0 (row_expiring ''2026-10-28'' 7)"
    by (simp add: countable_row_def days_until_def row_expiring_def empty_row_def dayjs0_def
          diff_day_def absFloor_def today0_def)
  from h aggregateByExpiryBucket_ladder [of today0 dayjs0 _ "row_expiring ''2026-10-28'' 7"
      "[row_expiring ''2027-01-31'' 100]" "[row_expiring ''2027-02-05'' (- 40)]"]
  show ?thesis by blast
qed


subsection \<open>Category breakdown\<close>

lemma sum_snd_update:
  "sum_list (map snd (AList.update k v al)) = sum_list (map snd al) - or_zero (map_of al k) + v"
  by (induction al) (auto simp: or_zero_def)

lemma gross_total_Cons:
  "gross_total (p # ps) = \<bar>or_zero (mv_ssc_usd p)\<bar> + gross_total ps"
  by (simp add: gross_total_def)

lemma category_sum_Cons:
  "category_sum toUpperCase ty (p # ps) =
     (if mv_ssc_usd p \<noteq> None \<and> getAssetType toUpperCase p = ty
      then \<bar>or_zero (mv_ssc_usd p)\<bar> + category_sum toUpperCase ty ps else category_sum toUpperCase ty ps)"
  by (simp add: category_sum_def)

lemma gross_total_nonneg: "0 \<le> gross_total ps"
  by (induction ps) (simp_all add: gross_total_def)

lemma add_asset_None: "mv_ssc_usd p = None \<Longrightarrow> add_asset toUpperCase p (am, tot) = (am, tot)"
  by (simp add: add_asset_def)

lemma add_asset_Some:
  "mv_ssc_usd p = Some v \<Longrightarrow>
   add_asset toUpperCase p (am, tot) =
     (AList.update (getAssetType toUpperCase p) (or_zero (map_of am (getAssetType toUpperCase p)) + \<bar>v\<bar>) am, tot + \<bar>v\<bar>)"
  by (simp add: add_asset_def Let_def)

lemma sum_list_insort_key:
  "sum_list (map g (insort_key f x xs)) = g x + sum_list (map g xs)"
  for g :: "'a \<Rightarrow> real"
  by (induction xs) simp_all

lemma sum_list_sort_key:
  "sum_list (map g (sort_key f xs)) = sum_list (map g xs)"
  for g :: "'a \<Rightarrow> real"
  by (induction xs) (simp_all add: sum_list_insort_key)

lemma sum_percentages:
  "(\<Sum>kv\<leftarrow>am. percentage (asset_entry tot kv))
     = (if tot > 0 then sum_list (map snd am) / tot * 100 else 0)"
  by (induction am) (auto simp: asset_entry_def add_divide_distrib distrib_right)



lemma or_zero_simps: "or_zero None = 0" "or_zero (Some x) = x"
  by (simp_all add: or_zero_def)

lemma asset_inv_Nil: "asset_inv toUpperCase [] acc acc"
  by (simp add: asset_inv_def gross_total_def category_sum_def)

lemma asset_inv_skip:
  assumes "mv_ssc_usd p = None" "asset_inv toUpperCase ps acc fin"
  shows "asset_inv toUpperCase (p # ps) acc fin"
proof -
  have set_eq: "{q \<in> set (p # ps). mv_ssc_usd q \<noteq> None} = {q \<in> set ps. mv_ssc_usd q \<noteq> None}"
    using assms(1) by auto
  have g: "gross_total (p # ps) = gross_total ps"
    using assms(1) by (simp add: gross_total_Cons or_zero_simps)
  have c: "category_sum toUpperCase ty (p # ps) = category_sum toUpperCase ty ps" for ty
    using assms(1) by (simp add: category_sum_Cons)
  from assms(2) show ?thesis
    unfolding asset_inv_def set_eq g c .
qed

lemma asset_inv_step:
  assumes mv: "mv_ssc_usd p = Some v"
    and inv: "asset_inv toUpperCase ps (AList.update (getAssetType toUpperCase p)
                (or_zero (map_of am (getAssetType toUpperCase p)) + \<bar>v\<bar>) am, tot + \<bar>v\<bar>) fin"
  shows "asset_inv toUpperCase (p # ps) (am, tot) fin"
proof -
  let ?ty = "getAssetType toUpperCase p"
  let ?am1 = "AList.update ?ty (or_zero (map_of am ?ty) + \<bar>v\<bar>) am"
  from inv have
    t: "snd fin = tot + \<bar>v\<bar> + gross_total ps" and
    sm: "sum_list (map snd (fst fin)) = sum_list (map snd ?am1) + gross_total ps" and
    cat: "\<And>ty. or_zero (map_of (fst fin) ty) = or_zero (map_of ?am1 ty) + category_sum toUpperCase ty ps" and
    keys: "fst ` set (fst fin) = fst ` set ?am1 \<union> getAssetType toUpperCase ` {p \<in> set ps. mv_ssc_usd p \<noteq> None}" and
    dist: "distinct (map fst ?am1) \<longrightarrow> distinct (map fst (fst fin))"
    by (simp_all add: asset_inv_def)
  have g: "gross_total (p # ps) = \<bar>v\<bar> + gross_total ps"
    using mv by (simp add: gross_total_Cons or_zero_simps)
  have set_eq: "{q \<in> set (p # ps). mv_ssc_usd q \<noteq> None} = insert p {q \<in> set ps. mv_ssc_usd q \<noteq> None}"
    using mv by auto
  have 1: "snd fin = tot + gross_total (p # ps)"
    using t g by simp
  have 2: "sum_list (map snd (fst fin)) = sum_list (map snd am) + gross_total (p # ps)"
    using sm g by (simp add: sum_snd_update)
  have 3: "or_zero (map_of (fst fin) ty) = or_zero (map_of am ty) + category_sum toUpperCase ty (p # ps)" for ty
  proof (cases "ty = ?ty")
    case True
    then have "or_zero (map_of ?am1 ty) = or_zero (map_of am ty) + \<bar>v\<bar>"
      by (simp add: update_conv' or_zero_simps)
    moreover have "category_sum toUpperCase ty (p # ps) = \<bar>v\<bar> + category_sum toUpperCase ty ps"
      using True mv by (simp add: category_sum_Cons or_zero_simps)
    ultimately show ?thesis using cat [of ty] by simp
  next
    case False
    then have "or_zero (map_of ?am1 ty) = or_zero (map_of am ty)"
      by (simp add: update_conv')
    moreover have "category_sum toUpperCase ty (p # ps) = category_sum toUpperCase ty ps"
      using False by (auto simp: category_sum_Cons)
    ultimately show ?thesis using cat [of ty] by simp
  qed
  have 4: "fst ` set (fst fin) = fst ` set am \<union> getAssetType toUpperCase ` {q \<in> set (p # ps). mv_ssc_usd q \<noteq> None}"
    unfolding keys set_eq dom_update by blast
  have 5: "distinct (map fst am) \<longrightarrow> distinct (map fst (fst fin))"
    using dist by (simp add: distinct_update)
  from 1 2 3 4 5 show ?thesis
    unfolding asset_inv_def fst_conv snd_conv by blast
qed

lemma fold_add_asset: "asset_inv toUpperCase ps acc (fold (add_asset toUpperCase) ps acc)"
proof (induction ps arbitrary: acc)
  case Nil
  show ?case by (simp add: asset_inv_Nil)
next
  case (Cons p ps)
  obtain am tot where acc: "acc = (am, tot)" by (cases acc)
  show ?case
  proof (cases "mv_ssc_usd p")
    case None
    then have "add_asset toUpperCase p acc = acc" by (simp add: acc add_asset_None)
    with Cons.IH [of acc] have "asset_inv toUpperCase ps acc (fold (add_asset toUpperCase) (p # ps) acc)" by simp
    with None show ?thesis by (rule asset_inv_skip)
  next
    case (Some v)
    from Cons.IH [of "add_asset toUpperCase p acc"]
    have "asset_inv toUpperCase ps (add_asset toUpperCase p acc) (fold (add_asset toUpperCase) (p # ps) acc)" by simp
    then show ?thesis
      unfolding acc add_asset_Some [OF Some] by (rule asset_inv_step [OF Some])
  qed
qed


lemma assetType_entry: "map assetType (map (asset_entry tot) am) = map fst am"
  by (induction am) (auto simp: asset_entry_def)

lemma aggregateByAssetType_unfold:
  "aggregateByAssetType toUpperCase ps =
     sort_key (\<lambda>a. - AssetTypeData.marketValue a)
       (map (asset_entry (gross_total ps)) (fst (fold (add_asset toUpperCase) ps ([], 0))))"
proof -
  from fold_add_asset [of toUpperCase ps "([], 0)"] have "snd (fold (add_asset toUpperCase) ps ([], 0)) = gross_total ps"
    by (simp add: asset_inv_def)
  then show ?thesis
    by (simp add: aggregateByAssetType_def case_prod_beta)
qed

lemma assetMap_facts:
  fixes toUpperCase ps
  defines "am \<equiv> fst (fold (add_asset toUpperCase) ps ([], 0))"
  shows "sum_list (map snd am) = gross_total ps"
    and "distinct (map fst am)"
    and "fst ` set am = getAssetType toUpperCase ` {p \<in> set ps. mv_ssc_usd p \<noteq> None}"
    and "(ty, mv) \<in> set am \<Longrightarrow> mv = category_sum toUpperCase ty ps"
proof -
  from fold_add_asset [of toUpperCase ps "([], 0)"] have
    sm: "sum_list (map snd am) = gross_total ps" and
    cat: "\<And>ty. or_zero (map_of am ty) = category_sum toUpperCase ty ps" and
    keys: "fst ` set am = getAssetType toUpperCase ` {p \<in> set ps. mv_ssc_usd p \<noteq> None}" and
    dist: "distinct (map fst am)"
    by (simp_all add: asset_inv_def am_def or_zero_simps)
  show "sum_list (map snd am) = gross_total ps" by (rule sm)
  show "distinct (map fst am)" by (rule dist)
  show "fst ` set am = getAssetType toUpperCase ` {p \<in> set ps. mv_ssc_usd p \<noteq> None}" by (rule keys)
  show "mv = category_sum toUpperCase ty ps" if "(ty, mv) \<in> set am"
  proof -
    from dist that have "map_of am ty = Some mv" by (rule map_of_is_SomeI)
    with cat [of ty] show ?thesis by (simp add: or_zero_simps)
  qed
qed

text \<open>
  C3. Every entry of \<open>aggregateByAssetType\<close> carries the sum of the absolute market
  values of the rows of its category that have a defined market value, and the
  percentage that sum is of the gross total (0 when the gross total is 0); there is one
  entry for each category that occurs among those rows; and when the gross total is not
  zero the percentages add up to 100. Numbers are exact reals here.
\<close>

theorem aggregateByAssetType_shares:
  "(\<forall>e \<in> set (aggregateByAssetType toUpperCase positions).
      AssetTypeData.marketValue e = category_sum toUpperCase (assetType e) positions
      \<and> percentage e =
          (if gross_total positions = 0 then 0
           else AssetTypeData.marketValue e / gross_total positions * 100))
   \<and> distinct (map assetType (aggregateByAssetType toUpperCase positions))
   \<and> assetType ` set (aggregateByAssetType toUpperCase positions)
       = getAssetType toUpperCase ` {p \<in> set positions. mv_ssc_usd p \<noteq> None}
   \<and> (gross_total positions \<noteq> 0 \<longrightarrow>
        sum_list (map percentage (aggregateByAssetType toUpperCase positions)) = 100)"
proof (intro conjI ballI impI)
  let ?am = "fst (fold (add_asset toUpperCase) positions ([], 0))"
  let ?xs = "map (asset_entry (gross_total positions)) ?am"
  have res: "aggregateByAssetType toUpperCase positions = sort_key (\<lambda>a. - AssetTypeData.marketValue a) ?xs"
    by (rule aggregateByAssetType_unfold)
  have set_res: "set (aggregateByAssetType toUpperCase positions) = set ?xs"
    by (simp add: res)
  have pos: "gross_total positions > 0 \<longleftrightarrow> gross_total positions \<noteq> 0"
    using gross_total_nonneg [of positions] by linarith
  {
    fix e assume "e \<in> set (aggregateByAssetType toUpperCase positions)"
    then obtain ty mv where kv: "(ty, mv) \<in> set ?am"
      and e: "e = asset_entry (gross_total positions) (ty, mv)"
      unfolding set_res by auto
    from kv have mv: "mv = category_sum toUpperCase ty positions" by (rule assetMap_facts(4))
    show "AssetTypeData.marketValue e = category_sum toUpperCase (assetType e) positions"
      using mv by (simp add: e asset_entry_def)
    show "percentage e =
          (if gross_total positions = 0 then 0
           else AssetTypeData.marketValue e / gross_total positions * 100)"
      using pos by (simp add: e asset_entry_def)
  }
  have dxs: "distinct (map assetType ?xs)"
    by (simp only: assetType_entry assetMap_facts(2))
  then have both: "distinct ?xs \<and> inj_on assetType (set ?xs)"
    by (rule distinct_map [THEN iffD1])
  from both have "distinct (aggregateByAssetType toUpperCase positions)"
    unfolding res by (simp only: distinct_sort)
  moreover from both have "inj_on assetType (set (aggregateByAssetType toUpperCase positions))"
    unfolding set_res by blast
  ultimately show "distinct (map assetType (aggregateByAssetType toUpperCase positions))"
    by (rule distinct_map [THEN iffD2, OF conjI])
  have "assetType ` set ?xs = set (map assetType ?xs)" by (simp only: set_map)
  also have "\<dots> = fst ` set ?am" by (simp only: assetType_entry set_map)
  finally show "assetType ` set (aggregateByAssetType toUpperCase positions)
       = getAssetType toUpperCase ` {p \<in> set positions. mv_ssc_usd p \<noteq> None}"
    unfolding set_res by (simp only: assetMap_facts(3))
  show "sum_list (map percentage (aggregateByAssetType toUpperCase positions)) = 100"
    if nz: "gross_total positions \<noteq> 0"
  proof -
    have "sum_list (map percentage (aggregateByAssetType toUpperCase positions))
        = (\<Sum>kv\<leftarrow>?am. percentage (asset_entry (gross_total positions) kv))"
      unfolding res sum_list_sort_key by (simp add: comp_def)
    also have "\<dots> = sum_list (map snd ?am) / gross_total positions * 100"
      using nz pos by (simp add: sum_percentages)
    also have "\<dots> = 100" using nz by (simp add: assetMap_facts(1))
    finally show ?thesis .
  qed
qed


lemma sample_types:
  "getAssetType sample_upper (asset_row ''CDX.IG 5Y'' mv) = ''IG''"
  "getAssetType sample_upper (asset_row ''spx put'' mv) = ''SPY''"
  "getAssetType sample_upper (asset_row ''HYG'' mv) = ''HY''"
  by (simp_all add: getAssetType_def asset_row_def empty_row_def ascii_upper_char_def)

lemma sample_mv: "mv_ssc_usd (asset_row symbol mv) = mv"
  by (simp add: asset_row_def)

lemma sample_result:
  "aggregateByAssetType sample_upper sample_book =
     [asset_entry 400 (''SPY'', 300), asset_entry 400 (''IG'', 100)]"
  by (simp add: aggregateByAssetType_def sample_book_def add_asset_def sample_types sample_mv
        or_zero_def Let_def asset_entry_def)

theorem aggregateByAssetType_shares_witness:
  "gross_total sample_book \<noteq> 0
   \<and> sum_list (map percentage (aggregateByAssetType sample_upper sample_book)) = 100
   \<and> (\<exists>e \<in> set (aggregateByAssetType sample_upper sample_book).
        assetType e = ''SPY'' \<and> AssetTypeData.marketValue e = 300 \<and> percentage e = 75)"
proof -
  have g: "gross_total sample_book = 400"
    by (simp add: gross_total_def sample_book_def sample_mv or_zero_def)
  have c: "category_sum sample_upper ''SPY'' sample_book = 300"
    by (simp add: category_sum_def sample_book_def sample_mv sample_types or_zero_def)
  let ?e = "asset_entry 400 (''SPY'', 300)"
  have m: "?e \<in> set (aggregateByAssetType sample_upper sample_book)" by (simp add: sample_result)
  have n: "assetType ?e = ''SPY''" by (simp add: asset_entry_def)
  note t = aggregateByAssetType_shares [of sample_upper sample_book]
  from t g have s: "sum_list (map percentage (aggregateByAssetType sample_upper sample_book)) = 100" by simp
  from t m have "AssetTypeData.marketValue ?e = category_sum sample_upper (assetType ?e) sample_book
      \<and> percentage ?e =
          (if gross_total sample_book = 0 then 0
           else AssetTypeData.marketValue ?e / gross_total sample_book * 100)"
    by blast
  then have "AssetTypeData.marketValue ?e = 300 \<and> percentage ?e = 75"
    by (simp add: n c g)
  with g s m n show ?thesis by auto
qed


subsection \<open>Spread consolidation\<close>

lemma bump_Nil: "bump a [] = a"
  by (simp add: bump_def)

lemma bump_Cons: "bump (bump a [row]) rows = bump a (row # rows)"
  by (simp add: bump_def add.assoc)

lemma add_leg_skip: "\<not> qualifies row \<Longrightarrow> add_leg row aggs = aggs"
  by (auto simp: add_leg_def qualifies_def split: option.splits)

lemma add_leg_other:
  assumes "spread_id row \<noteq> Some sid"
  shows "map_of (add_leg row aggs) sid = map_of aggs sid"
  using assms
  by (auto simp: add_leg_def get_property_def update_conv' Let_def
           split: option.splits property.splits if_splits)

lemma add_leg_present:
  assumes "qualifies row" "spread_id row = Some sid" "map_of aggs sid = Some a"
  shows "map_of (add_leg row aggs) sid = Some (bump a [row])"
  using assms
  by (simp add: add_leg_def qualifies_def get_property_def update_conv' bump_def)

lemma add_leg_absent:
  assumes "qualifies row" "spread_id row = Some sid" "map_of aggs sid = None"
    "sid \<notin> set Object_prototype_keys"
  shows "map_of (add_leg row aggs) sid = Some (bump (fresh row) [row])"
  using assms
  by (simp add: add_leg_def qualifies_def get_property_def update_conv' bump_def fresh_def Let_def)

lemma add_leg_inherited:
  assumes "map_of aggs sid = None" "sid \<in> set Object_prototype_keys"
  shows "map_of (add_leg row aggs) sid = None"
proof (cases "spread_id row = Some sid")
  case True
  with assms show ?thesis
    by (simp add: add_leg_def get_property_def Let_def)
next
  case False
  with assms show ?thesis by (simp add: add_leg_other)
qed

lemma fold_present:
  "map_of aggs sid = Some a \<Longrightarrow>
   map_of (fold add_leg data aggs) sid = Some (bump a (legs_of sid data))"
proof (induction data arbitrary: aggs a)
  case Nil
  then show ?case by (simp add: legs_of_def bump_Nil)
next
  case (Cons row data)
  show ?case
  proof (cases "qualifies row \<and> spread_id row = Some sid")
    case True
    with Cons.prems have "map_of (add_leg row aggs) sid = Some (bump a [row])"
      by (simp add: add_leg_present)
    from Cons.IH [OF this] True show ?thesis
      by (simp add: legs_of_def bump_Cons)
  next
    case False
    then have "map_of (add_leg row aggs) sid = map_of aggs sid"
      by (auto simp: add_leg_skip add_leg_other)
    with Cons.prems have "map_of (add_leg row aggs) sid = Some a" by simp
    from Cons.IH [OF this] False show ?thesis
      by (auto simp: legs_of_def)
  qed
qed

lemma fold_absent:
  "map_of aggs sid = None \<Longrightarrow> sid \<notin> set Object_prototype_keys \<Longrightarrow>
   map_of (fold add_leg data aggs) sid =
     (case legs_of sid data of [] \<Rightarrow> None | r # rs \<Rightarrow> Some (bump (fresh r) (r # rs)))"
proof (induction data arbitrary: aggs)
  case Nil
  then show ?case by (simp add: legs_of_def)
next
  case (Cons row data)
  show ?case
  proof (cases "qualifies row \<and> spread_id row = Some sid")
    case True
    with Cons.prems have "map_of (add_leg row aggs) sid = Some (bump (fresh row) [row])"
      by (simp add: add_leg_absent)
    from fold_present [OF this] True show ?thesis
      by (simp add: legs_of_def bump_Cons)
  next
    case False
    then have "map_of (add_leg row aggs) sid = map_of aggs sid"
      by (auto simp: add_leg_skip add_leg_other)
    with Cons.prems have "map_of (add_leg row aggs) sid = None" by simp
    from Cons.IH [OF this Cons.prems(2)] False show ?thesis
      by (auto simp: legs_of_def)
  qed
qed

lemma fold_inherited:
  "map_of aggs sid = None \<Longrightarrow> sid \<in> set Object_prototype_keys \<Longrightarrow>
   map_of (fold add_leg data aggs) sid = None"
  by (induction data arbitrary: aggs) (simp_all add: add_leg_inherited)

lemma spreadAggregates_skip:
  "\<not> qualifies row \<Longrightarrow> spreadAggregates (xs @ row # ys) = spreadAggregates (xs @ ys)"
  by (simp add: spreadAggregates_def add_leg_skip)

lemma map_of_spreadAggregates:
  "sid \<notin> set Object_prototype_keys \<Longrightarrow>
   map_of (spreadAggregates data) sid =
     (case legs_of sid data of [] \<Rightarrow> None | r # rs \<Rightarrow> Some (bump (fresh r) (r # rs)))"
  unfolding spreadAggregates_def by (rule fold_absent) simp_all

lemma spread_name_first_seen:
  "sid \<notin> set Object_prototype_keys \<Longrightarrow> legs_of sid data = r # rs \<Longrightarrow>
   map_option spread_name (map_of (spreadAggregates data) sid)
     = Some (str_or (AggRow.spread_name r) ''Spread'')"
  by (simp add: map_of_spreadAggregates bump_def fresh_def)

text \<open>
  C5 (as amended). Consolidation takes exactly the rows whose \<open>spread_id\<close> is non-empty
  and whose \<open>is_spread_leg\<close> is true: for every key other than the names every plain
  object inherits, an aggregate exists exactly when some such row carries the key, and
  its three totals are the signed sums of market value, daily PnL and month-to-date PnL
  over those rows, an undefined metric counting 0; a row that does not qualify changes
  nothing. Two qualifying rows under \<open>S1\<close> with market values 100 and -40 give 60.
\<close>

theorem spreadAggregates_sums:
  "(sid \<notin> set Object_prototype_keys \<longrightarrow>
      map_option mv_total (map_of (spreadAggregates data) sid)
        = (if legs_of sid data = [] then None
           else Some (\<Sum>row\<leftarrow>legs_of sid data. or_zero (mv_ssc_usd row)))
      \<and> map_option pnl_1d_total (map_of (spreadAggregates data) sid)
        = (if legs_of sid data = [] then None
           else Some (\<Sum>row\<leftarrow>legs_of sid data. or_zero (pnl_1d_usd row)))
      \<and> map_option pnl_mtd_total (map_of (spreadAggregates data) sid)
        = (if legs_of sid data = [] then None
           else Some (\<Sum>row\<leftarrow>legs_of sid data. or_zero (pnl_mtd_usd row))))
   \<and> (\<not> qualifies row \<longrightarrow> spreadAggregates (xs @ row # ys) = spreadAggregates (xs @ ys))
   \<and> map_option mv_total
        (map_of (spreadAggregates
           [p\<lparr>spread_id := Some ''S1'', is_spread_leg := Some True, mv_ssc_usd := Some 100\<rparr>,
            q\<lparr>spread_id := Some ''S1'', is_spread_leg := Some True, mv_ssc_usd := Some (- 40)\<rparr>])
           ''S1'')
       = Some 60"
proof (intro conjI impI)
  assume sid: "sid \<notin> set Object_prototype_keys"
  show "map_option mv_total (map_of (spreadAggregates data) sid)
        = (if legs_of sid data = [] then None
           else Some (\<Sum>row\<leftarrow>legs_of sid data. or_zero (mv_ssc_usd row)))"
    using sid by (cases "legs_of sid data") (simp_all add: map_of_spreadAggregates bump_def fresh_def)
  show "map_option pnl_1d_total (map_of (spreadAggregates data) sid)
        = (if legs_of sid data = [] then None
           else Some (\<Sum>row\<leftarrow>legs_of sid data. or_zero (pnl_1d_usd row)))"
    using sid by (cases "legs_of sid data") (simp_all add: map_of_spreadAggregates bump_def fresh_def)
  show "map_option pnl_mtd_total (map_of (spreadAggregates data) sid)
        = (if legs_of sid data = [] then None
           else Some (\<Sum>row\<leftarrow>legs_of sid data. or_zero (pnl_mtd_usd row)))"
    using sid by (cases "legs_of sid data") (simp_all add: map_of_spreadAggregates bump_def fresh_def)
next
  assume "\<not> qualifies row"
  then show "spreadAggregates (xs @ row # ys) = spreadAggregates (xs @ ys)"
    by (rule spreadAggregates_skip)
next
  have "''S1'' \<notin> set Object_prototype_keys" by (simp add: Object_prototype_keys_def)
  then show "map_option mv_total
        (map_of (spreadAggregates
           [p\<lparr>spread_id := Some ''S1'', is_spread_leg := Some True, mv_ssc_usd := Some 100\<rparr>,
            q\<lparr>spread_id := Some ''S1'', is_spread_leg := Some True, mv_ssc_usd := Some (- 40)\<rparr>])
           ''S1'')
       = Some 60"
    by (simp add: map_of_spreadAggregates legs_of_def qualifies_def bump_def fresh_def or_zero_def)
qed

theorem spreadAggregates_sums_witness:
  "''S1'' \<notin> set Object_prototype_keys
   \<and> \<not> qualifies empty_row
   \<and> map_option mv_total (map_of (spreadAggregates [leg_S1 100, empty_row, leg_S1 (- 40)]) ''S1'') = Some 60
   \<and> spreadAggregates ([leg_S1 100] @ empty_row # [leg_S1 (- 40)])
       = spreadAggregates ([leg_S1 100] @ [leg_S1 (- 40)])"
proof -
  have a: "''S1'' \<notin> set Object_prototype_keys" by (simp add: Object_prototype_keys_def)
  have b: "\<not> qualifies empty_row" by (simp add: qualifies_def empty_row_def)
  have c: "legs_of ''S1'' [leg_S1 100, empty_row, leg_S1 (- 40)] = [leg_S1 100, leg_S1 (- 40)]"
    by (simp add: legs_of_def qualifies_def leg_S1_def empty_row_def)
  note t = spreadAggregates_sums [of "''S1''" "[leg_S1 100, empty_row, leg_S1 (- 40)]" empty_row
      "[leg_S1 100]" "[leg_S1 (- 40)]"]
  from t a have "map_option mv_total (map_of (spreadAggregates [leg_S1 100, empty_row, leg_S1 (- 40)]) ''S1'')
      = (if legs_of ''S1'' [leg_S1 100, empty_row, leg_S1 (- 40)] = [] then None
         else Some (\<Sum>row\<leftarrow>legs_of ''S1'' [leg_S1 100, empty_row, leg_S1 (- 40)]. or_zero (mv_ssc_usd row)))"
    by blast
  then have d: "map_option mv_total (map_of (spreadAggregates [leg_S1 100, empty_row, leg_S1 (- 40)]) ''S1'') = Some 60"
    by (simp add: c) (simp add: leg_S1_def or_zero_def)
  from t b have e: "spreadAggregates ([leg_S1 100] @ empty_row # [leg_S1 (- 40)])
       = spreadAggregates ([leg_S1 100] @ [leg_S1 (- 40)])" by blast
  from a b d e show ?thesis by blast
qed

text \<open>
  A row whose \<open>spread_id\<close> is defined but empty, with \<open>is_spread_leg\<close> true, is left out.
\<close>

theorem spreadAggregates_defined_id_counterexample:
  "spread_id leg_unnamed \<noteq> None \<and> is_spread_leg leg_unnamed = Some True
   \<and> mv_ssc_usd leg_unnamed = Some 100 \<and> spreadAggregates [leg_unnamed] = []"
  by (simp add: leg_unnamed_def spreadAggregates_def add_leg_def)

text \<open>
  C9. For a key that is not an inherited name the aggregate's \<open>spread_name\<close> comes from
  the first qualifying row (\<open>spread_name_first_seen\<close>). Under the key \<open>toString\<close> the
  guard finds the inherited member, no aggregate is ever created, and reading the
  result by that key gives the inherited member, which has no \<open>spread_name\<close>.
\<close>

theorem spread_name_inherited_key:
  "qualifies leg_toString
   \<and> spreadAggregates [leg_toString] = []
   \<and> get_property (spreadAggregates [leg_toString]) ''toString'' = Inherited
   \<and> map_option spread_name (map_of (spreadAggregates [leg_toString]) ''toString'')
       \<noteq> Some ''Payer Spread''"
  by (simp add: leg_toString_def qualifies_def spreadAggregates_def add_leg_def get_property_def
        Object_prototype_keys_def)

text \<open>
  C10. A row whose \<open>spread_id\<close> is the empty string leaves the aggregates as they are,
  whatever its \<open>is_spread_leg\<close>: the result is the same with the row removed, and no
  aggregate exists under the empty key.
\<close>

theorem empty_spread_id_excluded:
  "spread_id row = Some [] \<longrightarrow>
     add_leg row aggregates = aggregates
     \<and> spreadAggregates (xs @ row # ys) = spreadAggregates (xs @ ys)
     \<and> map_of (spreadAggregates (xs @ row # ys)) [] = None"
proof
  assume e: "spread_id row = Some []"
  then have nq: "\<not> qualifies row" by (simp add: qualifies_def)
  have "[] \<notin> set Object_prototype_keys" by (simp add: Object_prototype_keys_def)
  then have "map_of (spreadAggregates (xs @ row # ys)) [] = None"
    by (simp add: map_of_spreadAggregates legs_of_def qualifies_def split: option.splits list.splits)
  with nq show "add_leg row aggregates = aggregates
     \<and> spreadAggregates (xs @ row # ys) = spreadAggregates (xs @ ys)
     \<and> map_of (spreadAggregates (xs @ row # ys)) [] = None"
    by (simp add: add_leg_skip spreadAggregates_skip)
qed

theorem empty_spread_id_excluded_witness:
  "spread_id leg_unnamed = Some [] \<and> is_spread_leg leg_unnamed = Some True
   \<and> add_leg leg_unnamed [] = []
   \<and> spreadAggregates ([leg_S1 100] @ leg_unnamed # []) = spreadAggregates ([leg_S1 100] @ [])"
proof -
  have a: "spread_id leg_unnamed = Some []" by (simp add: leg_unnamed_def)
  have b: "is_spread_leg leg_unnamed = Some True" by (simp add: leg_unnamed_def)
  from a empty_spread_id_excluded [of leg_unnamed "[]" "[leg_S1 100]" "[]"]
  have "add_leg leg_unnamed [] = []
     \<and> spreadAggregates ([leg_S1 100] @ leg_unnamed # []) = spreadAggregates ([leg_S1 100] @ [])"
    by blast
  with a b show ?thesis by blast
qed

subsection \<open>Basis points\<close>

lemma floor_log2_eq:
  assumes "2 powi e \<le> \<bar>x\<bar>" "\<bar>x\<bar> < 2 powi (e + 1)"
  shows "\<lfloor>log 2 \<bar>x\<bar>\<rfloor> = e"
proof -
  have pos: "0 < \<bar>x\<bar>"
    using assms(1) by (smt (verit) zero_less_power_int)
  have p: "(2::real) powr real_of_int k = 2 powi k" for k
    by (rule powr_real_of_int') simp_all
  have "real_of_int e + 1 = real_of_int (e + 1)" by simp
  with assms p [of e] p [of "e + 1"]
  have "2 powr of_int e \<le> \<bar>x\<bar> \<and> \<bar>x\<bar> < 2 powr (of_int e + 1)"
    by (simp only:)
  with pos show ?thesis
    by (simp add: floor_log_eq_powr_iff)
qed

lemma binary64_eval:
  assumes "2 powi e \<le> \<bar>x\<bar>" "\<bar>x\<bar> < 2 powi (e + 1)" "- 1022 \<le> e"
    and "round_half_even (x / 2 powi (e - 52)) = n"
    and "\<bar>of_int n * 2 powi (e - 52)\<bar> < (2::real) ^ 1024"
  shows "binary64 x = Finite (of_int n * 2 powi (e - 52))"
proof -
  have nz: "x \<noteq> 0"
    using assms(1) by (smt (verit) zero_less_power_int)
  have e: "max \<lfloor>log 2 \<bar>x\<bar>\<rfloor> (- 1022) = e"
    using floor_log2_eq [OF assms(1,2)] assms(3) by simp
  show ?thesis
    unfolding binary64_def Let_def e assms(4) using nz assms(5) by simp
qed

lemma round_examples:
  "round_half_even (5 / 2) = 2" "round_half_even (7 / 2) = 4" "round_half_even (- 5 / 2) = - 2"
  "round_half_even (12 / 5) = 2" "round_half_even (13 / 5) = 3"
  by (simp_all add: round_half_even_def Let_def)


lemma quotient_145: "binary64 (145 / 1000000) = Finite (5349555781375770 / 2 ^ 65)"
  using binary64_eval [of "- 13" "145 / 1000000" 5349555781375770]
  by (simp add: power_int_minus round_half_even_def Let_def)

lemma product_145: "binary64 (5349555781375770 / 2 ^ 65 * 10000) = Finite (6530219459687219 / 2 ^ 52)"
  using binary64_eval [of 0 "5349555781375770 / 2 ^ 65 * 10000" 6530219459687219]
  by (simp add: power_int_minus round_half_even_def Let_def)

lemma quotient_149: "binary64 (149 / 1000000) = Finite (5497129733965446 / 2 ^ 65)"
  using binary64_eval [of "- 13" "149 / 1000000" 5497129733965446]
  by (simp add: power_int_minus round_half_even_def Let_def)

lemma product_149: "binary64 (5497129733965446 / 2 ^ 65 * 10000) = Finite (6710363444782039 / 2 ^ 52)"
  using binary64_eval [of 0 "5497129733965446 / 2 ^ 65 * 10000" 6710363444782039]
  by (simp add: power_int_minus round_half_even_def Let_def)

lemma quotient_150: "binary64 (150 / 1000000) = Finite (5534023222112865 / 2 ^ 65)"
  using binary64_eval [of "- 13" "150 / 1000000" 5534023222112865]
  by (simp add: power_int_minus round_half_even_def Let_def)

lemma product_150: "binary64 (5534023222112865 / 2 ^ 65 * 10000) = Finite (6755399441055743 / 2 ^ 52)"
  using binary64_eval [of 0 "5534023222112865 / 2 ^ 65 * 10000" 6755399441055743]
  by (simp add: power_int_minus round_half_even_def Let_def)

lemma nat_digits_14: "nat_digits 14 = ''14''"
  by (simp add: nat_digits.simps [of 14] nat_digits.simps [of "Suc 0"] digit_char_def)

lemma nat_digits_15: "nat_digits 15 = ''15''"
  by (simp add: nat_digits.simps [of 15] nat_digits.simps [of "Suc 0"] digit_char_def)

lemma digits_145: "fixed_digits (6530219459687219 / 2 ^ 52) (Suc 0) = ''1.4''"
proof -
  have "\<lfloor>\<bar>6530219459687219 / 2 ^ 52 :: real\<bar> * 10 ^ Suc 0 + 1 / 2\<rfloor> = 14"
    by (simp add: floor_eq_iff)
  then show ?thesis by (simp add: fixed_digits_def Let_def nat_digits_14)
qed

lemma digits_149: "fixed_digits (6710363444782039 / 2 ^ 52) (Suc 0) = ''1.5''"
proof -
  have "\<lfloor>\<bar>6710363444782039 / 2 ^ 52 :: real\<bar> * 10 ^ Suc 0 + 1 / 2\<rfloor> = 15"
    by (simp add: floor_eq_iff)
  then show ?thesis by (simp add: fixed_digits_def Let_def nat_digits_15)
qed

lemma digits_150: "fixed_digits (6755399441055743 / 2 ^ 52) (Suc 0) = ''1.5''"
proof -
  have "\<lfloor>\<bar>6755399441055743 / 2 ^ 52 :: real\<bar> * 10 ^ Suc 0 + 1 / 2\<rfloor> = 15"
    by (simp add: floor_eq_iff)
  then show ?thesis by (simp add: fixed_digits_def Let_def nat_digits_15)
qed

lemma formatBasisPoints_finite:
  assumes "portfolioTotal \<noteq> 0" "0 \<le> decimals" "decimals \<le> 100"
    and "binary64 (v / portfolioTotal) = Finite q" "binary64 (q * 10000) = Finite x"
    and "\<bar>x\<bar> < 10 ^ 21"
  shows "formatBasisPoints ts (Some v) portfolioTotal decimals
           = Inr (fixed_digits x (nat decimals) @ '' bps'')"
  using assms by (simp add: formatBasisPoints_def toFixed_def)

lemma format_145: "formatBasisPoints ts (Some 145) 1000000 1 = Inr ''1.4 bps''"
  using formatBasisPoints_finite [OF _ _ _ quotient_145 product_145, of 1 ts] digits_145
  by simp

lemma format_149: "formatBasisPoints ts (Some 149) 1000000 1 = Inr ''1.5 bps''"
  using formatBasisPoints_finite [OF _ _ _ quotient_149 product_149, of 1 ts] digits_149
  by simp

lemma format_150: "formatBasisPoints ts (Some 150) 1000000 1 = Inr ''1.5 bps''"
  using formatBasisPoints_finite [OF _ _ _ quotient_150 product_150, of 1 ts] digits_150
  by simp


lemma round_half_even_near: "\<bar>of_int (round_half_even r) - r\<bar> \<le> 1 / 2"
  unfolding round_half_even_def Let_def by (simp split: if_splits)

lemma binary64_error:
  assumes fin: "binary64 x = Finite y" and normal: "2 powi (- 1022) \<le> \<bar>x\<bar>"
  shows "\<bar>y - x\<bar> \<le> \<bar>x\<bar> / 2 ^ 53"
proof -
  define e0 where "e0 = \<lfloor>log 2 \<bar>x\<bar>\<rfloor>"
  have pos: "0 < \<bar>x\<bar>" using normal by (smt (verit) zero_less_power_int)
  then have nz: "x \<noteq> 0" by simp
  have p: "(2::real) powr real_of_int k = 2 powi k" for k
    by (rule powr_real_of_int') simp_all
  have "2 powr real_of_int e0 \<le> \<bar>x\<bar>"
    using floor_log_eq_powr_iff [of "\<bar>x\<bar>" 2 e0] pos by (simp add: e0_def)
  then have low: "2 powi e0 \<le> \<bar>x\<bar>" by (simp only: p)
  have "real_of_int (- 1022) \<le> log 2 \<bar>x\<bar>"
    using normal pos p [of "- 1022"] by (simp add: le_log_iff)
  then have e0: "- 1022 \<le> e0" unfolding e0_def by (simp add: le_floor_iff)
  define ulp :: real where "ulp = 2 powi (e0 - 52)"
  have ulp_pos: "0 < ulp" by (simp add: ulp_def)
  have ulp_eq: "ulp = 2 powi e0 / 2 ^ 52"
    by (simp add: ulp_def power_int_diff)
  have y: "y = of_int (round_half_even (x / ulp)) * ulp"
    using fin nz e0 unfolding binary64_def Let_def e0_def [symmetric] ulp_def
    by (simp add: max_def split: if_splits)
  have "y - x = (of_int (round_half_even (x / ulp)) - x / ulp) * ulp"
    using ulp_pos by (simp add: y field_simps)
  then have "\<bar>y - x\<bar> = \<bar>of_int (round_half_even (x / ulp)) - x / ulp\<bar> * \<bar>ulp\<bar>"
    by (simp only: abs_mult)
  also have "\<dots> = \<bar>of_int (round_half_even (x / ulp)) - x / ulp\<bar> * ulp"
    using ulp_pos by simp
  also have "\<dots> \<le> 1 / 2 * ulp"
    using round_half_even_near [of "x / ulp"] ulp_pos by (intro mult_right_mono) simp_all
  also have "\<dots> = 2 powi e0 / 2 ^ 53" by (simp add: ulp_eq)
  also have "\<dots> \<le> \<bar>x\<bar> / 2 ^ 53" using low by (simp add: divide_right_mono)
  finally show ?thesis .
qed


lemma basis_points_error:
  assumes normal: "2 powi (- 1022) \<le> \<bar>V\<bar>"
    and q: "binary64 V = Finite q" and x: "binary64 (q * 10000) = Finite x"
  shows "\<bar>x - V * 10000\<bar> \<le> \<bar>V * 10000\<bar> * 3 / 2 ^ 53"
proof -
  have e1: "\<bar>q - V\<bar> \<le> \<bar>V\<bar> / 2 ^ 53"
    using q normal by (rule binary64_error)
  have tiny: "(0::real) \<le> 2 powi (- 1022)" by simp
  from e1 have lo: "\<bar>V\<bar> - \<bar>V\<bar> / 2 ^ 53 \<le> \<bar>q\<bar>" and hi: "\<bar>q\<bar> \<le> \<bar>V\<bar> + \<bar>V\<bar> / 2 ^ 53"
    by linarith+
  from lo have "\<bar>V\<bar> \<le> \<bar>q\<bar> * 10000" by simp
  with normal have "2 powi (- 1022) \<le> \<bar>q * 10000\<bar>" by (simp add: abs_mult)
  with x have e2: "\<bar>x - q * 10000\<bar> \<le> \<bar>q * 10000\<bar> / 2 ^ 53"
    by (rule binary64_error)
  have "q * 10000 - V * 10000 = (q - V) * 10000" by (simp add: algebra_simps)
  then have "\<bar>q * 10000 - V * 10000\<bar> = \<bar>q - V\<bar> * 10000" by (simp only: abs_mult)
  then have "\<bar>x - V * 10000\<bar> \<le> \<bar>x - q * 10000\<bar> + \<bar>q - V\<bar> * 10000"
    by linarith
  also have "\<dots> \<le> \<bar>q\<bar> * 10000 / 2 ^ 53 + \<bar>V\<bar> / 2 ^ 53 * 10000"
    using e1 e2 by (simp add: abs_mult)
  also have "\<dots> \<le> \<bar>V\<bar> * 10000 * 3 / 2 ^ 53"
    using hi by simp
  finally show ?thesis by (simp add: abs_mult)
qed

lemma formatBasisPoints_dash_iff:
  "formatBasisPoints ts value portfolioTotal decimals = Inr ''-''
     \<longleftrightarrow> value = None \<or> portfolioTotal = 0"
  by (auto simp: formatBasisPoints_def Let_def split: option.splits sum.splits)

lemma formatBasisPoints_text:
  assumes "portfolioTotal \<noteq> 0" "0 \<le> decimals" "decimals \<le> 100"
  shows "\<exists>digits. formatBasisPoints ts (Some v) portfolioTotal decimals = Inr (digits @ '' bps'')"
  using assms
  by (simp add: formatBasisPoints_def toFixed_def Let_def split: number.splits)

lemma nat_digits_1: "nat_digits (Suc 0) = ''1''"
  by (simp add: nat_digits.simps [of "Suc 0"] digit_char_def)

lemma digits_150_whole: "fixed_digits (6755399441055743 / 2 ^ 52) 0 = ''1''"
proof -
  have "\<lfloor>\<bar>6755399441055743 / 2 ^ 52 :: real\<bar> * 10 ^ 0 + 1 / 2\<rfloor> = 1"
    by (simp add: floor_eq_iff)
  then show ?thesis by (simp add: fixed_digits_def Let_def nat_digits_1)
qed

lemma format_150_whole: "formatBasisPoints ts (Some 150) 1000000 0 = Inr ''1 bps''"
  using formatBasisPoints_finite [OF _ _ _ quotient_150 product_150, of 0 ts] digits_150_whole
  by simp

lemma quotient_large: "binary64 100000000000000000 = Finite 100000000000000000"
  using binary64_eval [of 56 100000000000000000 6250000000000000]
  by (simp add: round_half_even_def Let_def)

lemma product_large: "binary64 1000000000000000000000 = Finite 1000000000000000000000"
  using binary64_eval [of 69 1000000000000000000000 7629394531250000]
  by (simp add: round_half_even_def Let_def)

lemma format_large:
  "formatBasisPoints ts (Some 100000000000000000) 1 1
     = Inr (ts 1000000000000000000000 @ '' bps'')"
  by (simp add: formatBasisPoints_def quotient_large product_large toFixed_def)


text \<open>
  C8 (as amended). With a defined value, a nonzero total and 0 to 100 fraction digits,
  \<open>formatBasisPoints\<close> returns a text that ends in \<open>bps\<close>: where the binary64 quotient
  and product are finite and below \<open>10 ^ 21\<close>, the product printed with that many
  fraction digits; and for a quotient in the normal range that product is within the
  relative error \<open>3 / 2 ^ 53\<close> of \<open>(value / total) * 10000\<close>. It returns the dash
  exactly when the value is undefined or the total is zero. For 150 over 1,000,000 the
  text is \<open>1.5 bps\<close> (\<open>1 bps\<close> with no fraction digits), for 145 it is \<open>1.4 bps\<close>, and
  for 150 over 0 it is the dash.
\<close>

theorem formatBasisPoints_spec:
  "(portfolioTotal \<noteq> 0 \<and> 0 \<le> decimals \<and> decimals \<le> 100 \<longrightarrow>
      (\<exists>digits. formatBasisPoints ts (Some v) portfolioTotal decimals = Inr (digits @ '' bps'')))
   \<and> (portfolioTotal \<noteq> 0 \<and> 0 \<le> decimals \<and> decimals \<le> 100
        \<and> binary64 (v / portfolioTotal) = Finite q \<and> binary64 (q * 10000) = Finite x
        \<and> \<bar>x\<bar> < 10 ^ 21 \<longrightarrow>
        formatBasisPoints ts (Some v) portfolioTotal decimals
          = Inr (fixed_digits x (nat decimals) @ '' bps''))
   \<and> (2 powi (- 1022) \<le> \<bar>v / portfolioTotal\<bar>
        \<and> binary64 (v / portfolioTotal) = Finite q \<and> binary64 (q * 10000) = Finite x \<longrightarrow>
        \<bar>x - (v / portfolioTotal) * 10000\<bar> \<le> \<bar>(v / portfolioTotal) * 10000\<bar> * 3 / 2 ^ 53)
   \<and> (formatBasisPoints ts value portfolioTotal decimals = Inr ''-''
        \<longleftrightarrow> value = None \<or> portfolioTotal = 0)
   \<and> formatBasisPoints ts (Some 150) 1000000 1 = Inr ''1.5 bps''
   \<and> formatBasisPoints ts (Some 150) 1000000 0 = Inr ''1 bps''
   \<and> formatBasisPoints ts (Some 145) 1000000 1 = Inr ''1.4 bps''
   \<and> formatBasisPoints ts (Some 100000000000000000) 1 1
        = Inr (ts 1000000000000000000000 @ '' bps'')
   \<and> formatBasisPoints ts (Some 150) 0 1 = Inr ''-''"
proof (intro conjI impI)
  show "\<exists>digits. formatBasisPoints ts (Some v) portfolioTotal decimals = Inr (digits @ '' bps'')"
    if "portfolioTotal \<noteq> 0 \<and> 0 \<le> decimals \<and> decimals \<le> 100"
    using that by (intro formatBasisPoints_text) simp_all
  show "formatBasisPoints ts (Some v) portfolioTotal decimals
          = Inr (fixed_digits x (nat decimals) @ '' bps'')"
    if "portfolioTotal \<noteq> 0 \<and> 0 \<le> decimals \<and> decimals \<le> 100
        \<and> binary64 (v / portfolioTotal) = Finite q \<and> binary64 (q * 10000) = Finite x
        \<and> \<bar>x\<bar> < 10 ^ 21"
    using that by (intro formatBasisPoints_finite [of _ _ _ q]) simp_all
  show "\<bar>x - (v / portfolioTotal) * 10000\<bar> \<le> \<bar>(v / portfolioTotal) * 10000\<bar> * 3 / 2 ^ 53"
    if "2 powi (- 1022) \<le> \<bar>v / portfolioTotal\<bar>
        \<and> binary64 (v / portfolioTotal) = Finite q \<and> binary64 (q * 10000) = Finite x"
    using that by (intro basis_points_error [of _ q]) simp_all
  show "formatBasisPoints ts value portfolioTotal decimals = Inr ''-''
        \<longleftrightarrow> value = None \<or> portfolioTotal = 0"
    by (rule formatBasisPoints_dash_iff)
  show "formatBasisPoints ts (Some 150) 1000000 1 = Inr ''1.5 bps''" by (rule format_150)
  show "formatBasisPoints ts (Some 150) 1000000 0 = Inr ''1 bps''" by (rule format_150_whole)
  show "formatBasisPoints ts (Some 145) 1000000 1 = Inr ''1.4 bps''" by (rule format_145)
  show "formatBasisPoints ts (Some 100000000000000000) 1 1
        = Inr (ts 1000000000000000000000 @ '' bps'')" by (rule format_large)
  show "formatBasisPoints ts (Some 150) 0 1 = Inr ''-''"
    by (simp add: formatBasisPoints_def)
qed

theorem formatBasisPoints_spec_witness:
  "((1000000 :: real) \<noteq> 0 \<and> (0 :: int) \<le> 1 \<and> (1 :: int) \<le> 100
      \<and> binary64 (149 / 1000000) = Finite (5497129733965446 / 2 ^ 65)
      \<and> binary64 (5497129733965446 / 2 ^ 65 * 10000) = Finite (6710363444782039 / 2 ^ 52)
      \<and> \<bar>6710363444782039 / 2 ^ 52 :: real\<bar> < 10 ^ 21
      \<and> 2 powi (- 1022) \<le> \<bar>149 / 1000000 :: real\<bar>)
   \<and> formatBasisPoints exponent_form (Some 149) 1000000 1 = Inr ''1.5 bps''
   \<and> \<bar>6710363444782039 / 2 ^ 52 - (149 / 1000000) * 10000 :: real\<bar>
        \<le> \<bar>(149 / 1000000) * 10000\<bar> * 3 / 2 ^ 53"
proof -
  have h1: "(1000000 :: real) \<noteq> 0 \<and> (0 :: int) \<le> 1 \<and> (1 :: int) \<le> 100" by simp
  have h2: "\<bar>6710363444782039 / 2 ^ 52 :: real\<bar> < 10 ^ 21" by simp
  have h3: "2 powi (- 1022) \<le> \<bar>149 / 1000000 :: real\<bar>"
  proof -
    have "(2::real) powi (- 1022) \<le> 2 powi (- 13)" by (rule power_int_increasing) simp_all
    also have "\<dots> \<le> \<bar>149 / 1000000 :: real\<bar>" by (simp add: power_int_minus)
    finally show ?thesis .
  qed
  note t = formatBasisPoints_spec [of 1000000 1 exponent_form 149
      "5497129733965446 / 2 ^ 65" "6710363444782039 / 2 ^ 52"]
  from t h1 h2 quotient_149 product_149
  have "formatBasisPoints exponent_form (Some 149) 1000000 1
          = Inr (fixed_digits (6710363444782039 / 2 ^ 52) (nat 1) @ '' bps'')"
    by blast
  then have r: "formatBasisPoints exponent_form (Some 149) 1000000 1 = Inr ''1.5 bps''"
    using digits_149 by simp
  from t h3 quotient_149 product_149
  have b: "\<bar>6710363444782039 / 2 ^ 52 - (149 / 1000000) * 10000 :: real\<bar>
        \<le> \<bar>(149 / 1000000) * 10000\<bar> * 3 / 2 ^ 53"
    by blast
  from h1 h2 h3 quotient_149 product_149 r b show ?thesis by blast
qed

text \<open>
  The result is a rounded text, not the quotient: 149 and 150 over 1,000,000 are 1.49
  and 1.5 basis points and give the same text.
\<close>

theorem formatBasisPoints_rounds_counterexample:
  "formatBasisPoints exponent_form (Some 149) 1000000 1 = Inr ''1.5 bps''
   \<and> formatBasisPoints exponent_form (Some 149) 1000000 1
       = formatBasisPoints exponent_form (Some 150) 1000000 1
   \<and> (149 / 1000000) * 10000 \<noteq> ((150 / 1000000) * 10000 :: real)"
proof -
  have "formatBasisPoints exponent_form (Some 149) 1000000 1 = Inr ''1.5 bps''"
    by (rule format_149)
  moreover have "formatBasisPoints exponent_form (Some 150) 1000000 1 = Inr ''1.5 bps''"
    by (rule format_150)
  ultimately show ?thesis by simp
qed


end
